theory Spec2Isabelle
  imports Main
begin

unbundle bit_operations_syntax

section \<open>Strings: the parts of Python's \<open>str\<close> the code uses\<close>

text \<open>
  Texts are \<open>string\<close>s (lists of 8-bit characters).  \<open>str.upper\<close> is modelled on
  them character by character: the 26 ASCII lower-case letters go to their capitals and
  every other character is left as it is.
\<close>

definition upper_char :: "char \<Rightarrow> char" where
  "upper_char c =
     (case map_of (zip ''abcdefghijklmnopqrstuvwxyz'' ''ABCDEFGHIJKLMNOPQRSTUVWXYZ'') c of
        Some u \<Rightarrow> u
      | None \<Rightarrow> c)"

definition upper :: "string \<Rightarrow> string" where
  "upper s = map upper_char s"

text \<open>
  \<open>str.strip()\<close> with no argument removes leading and trailing white space.  Within
  the 8-bit range Python's white space is: TAB, LF, VT, FF, CR (9 to 13), the four
  separators 28 to 31, the blank 32, NEL (133) and the no-break space (160).
\<close>

definition isspace :: "char \<Rightarrow> bool" where
  "isspace c =
     (let n = (of_char c :: nat)
      in (9 \<le> n \<and> n \<le> 13) \<or> (28 \<le> n \<and> n \<le> 32) \<or> n = 133 \<or> n = 160)"

definition lstrip :: "string \<Rightarrow> string" where
  "lstrip s = dropWhile isspace s"

definition rstrip :: "string \<Rightarrow> string" where
  "rstrip s = rev (dropWhile isspace (rev s))"

definition strip :: "string \<Rightarrow> string" where
  "strip s = rstrip (lstrip s)"

section \<open>Project 5: the pattern compiler\<close>

text \<open>
  Every \<open>raise\<close> of the source is a value of \<open>error\<close>.  The source raises
  \<open>HTTPException(status_code, detail)\<close>; the constructors keep the status and name the
  detail:
  \<^item> \<open>ConfigNotFound\<close>: 404, "Config file not found at ...";
  \<^item> \<open>ConfigMalformed\<close>: 400, "Failed to parse config JSON: ..." (with the parser's message);
  \<^item> \<open>ConfigIncomplete k\<close>: 400, "Config is missing 'k' string.";
  \<^item> \<open>FlagsNotList\<close>: 400, "'flags' must be a list of strings." (Project 4 only);
  \<^item> \<open>InvalidFlag name\<close>: 400, "Unknown regex flag: name";
  \<^item> \<open>InvalidExpression msg\<close>: 400, "Invalid regex: msg";
  \<^item> \<open>Uncaught exc\<close>: a Python exception that no handler of the source catches
    (it leaves the function as it is, not as an \<open>HTTPException\<close>).
\<close>

datatype py_exception = AttributeError | ValueError string

datatype error =
    ConfigNotFound
  | ConfigMalformed string
  | ConfigIncomplete string
  | FlagsNotList
  | InvalidFlag string
  | InvalidExpression string
  | Uncaught py_exception

text \<open>
  \<open>_FLAG_MAP\<close>: the six names and the values of the constants of Python's \<open>re\<close>
  module (\<open>re.IGNORECASE = 2\<close>, \<open>re.MULTILINE = 8\<close>, \<open>re.DOTALL = 16\<close>,
  \<open>re.UNICODE = 32\<close>, \<open>re.ASCII = 256\<close>, \<open>re.VERBOSE = 64\<close>).
\<close>

definition FLAG_MAP :: "string \<rightharpoonup> int" where
  "FLAG_MAP = map_of
     [(''IGNORECASE'', 2), (''MULTILINE'', 8), (''DOTALL'', 16),
      (''UNICODE'', 32), (''ASCII'', 256), (''VERBOSE'', 64)]"

text \<open>
  The pattern engine (Python's \<open>re\<close>) is a collaborator, not code of the repository:
  it is a parameter of the model.  \<open>re_compile pattern flags\<close> is \<open>re.compile\<close>, which
  returns a compiled pattern, raises \<open>re.error\<close> (the only exception the source catches)
  or raises something else; \<open>finditer p text\<close> is the list of matches that
  \<open>p.finditer(text)\<close> yields, in the order it yields them.  A match carries what the
  source reads from it: \<open>group(0)\<close> and \<open>groupdict()\<close>, which has one entry for every
  named group of the pattern, \<open>None\<close> for a group that took no part in the match.
\<close>

datatype 'p compile_result = Compiled 'p | ReError string | Raised py_exception

record rmatch =
  group0 :: string
  groupdict :: "(string \<times> string option) list"

record 'p engine =
  re_compile :: "string \<Rightarrow> int \<Rightarrow> 'p compile_result"
  finditer :: "'p \<Rightarrow> string \<Rightarrow> rmatch list"

text \<open>The loop of \<open>compile_pattern\<close> over the flag names, \<open>flags_val\<close> threaded through.\<close>

fun flags_loop :: "string list \<Rightarrow> int \<Rightarrow> error + int" where
  "flags_loop [] flags_val = Inr flags_val"
| "flags_loop (name # rest) flags_val =
     (let up = upper name
      in case FLAG_MAP up of
           None \<Rightarrow> Inl (InvalidFlag name)
         | Some f \<Rightarrow> flags_loop rest (flags_val OR f))"

text \<open>\<open>flags or []\<close>: an absent list is the empty list.\<close>

definition or_empty :: "'a list option \<Rightarrow> 'a list" where
  "or_empty flags = (case flags of None \<Rightarrow> [] | Some fs \<Rightarrow> fs)"

definition try_compile :: "'p engine \<Rightarrow> string \<Rightarrow> int \<Rightarrow> error + 'p" where
  "try_compile re pattern flags_val =
     (case re_compile re pattern flags_val of
        Compiled p \<Rightarrow> Inr p
      | ReError msg \<Rightarrow> Inl (InvalidExpression msg)
      | Raised exc \<Rightarrow> Inl (Uncaught exc))"

definition compile_pattern :: "'p engine \<Rightarrow> string \<Rightarrow> string list option \<Rightarrow> error + 'p" where
  "compile_pattern re pattern flags =
     (case flags_loop (or_empty flags) 0 of
        Inl e \<Rightarrow> Inl e
      | Inr flags_val \<Rightarrow> try_compile re pattern flags_val)"

subsection \<open>Loading the configuration\<close>

text \<open>
  A parsed JSON value.  An object is the Python \<open>dict\<close> that \<open>json.loads\<close> builds,
  as an association list with one pair for each key; \<open>data.get(k)\<close> is \<open>map_of d k\<close>.
\<close>

datatype json =
    JNull
  | JBool bool
  | JNum int
  | JStr string
  | JArr "json list"
  | JObj "(string \<times> json) list"

text \<open>
  What the source asks of the configuration path: \<open>exists()\<close>, \<open>is_file()\<close>, and the
  outcome of \<open>json.loads(cfg_path.read_text(encoding="utf-8"))\<close>, which is the parsed
  value, or the message of the exception that reading or parsing raised.
\<close>

record cfg_path =
  path_exists :: bool
  is_file :: bool
  loaded :: "string + json"

text \<open>\<open>isinstance(v, str) and v.strip()\<close> on the result of \<open>data.get(k)\<close>.\<close>

definition nonblank_str :: "json option \<Rightarrow> bool" where
  "nonblank_str v = (case v of Some (JStr s) \<Rightarrow> strip s \<noteq> [] | _ \<Rightarrow> False)"

definition setdefault :: "(string \<times> json) list \<Rightarrow> string \<Rightarrow> json \<Rightarrow> (string \<times> json) list" where
  "setdefault d k v = (case map_of d k of None \<Rightarrow> d @ [(k, v)] | Some _ \<Rightarrow> d)"

text \<open>
  \<open>load_regex_config\<close>.  The \<open>try\<close> covers reading and parsing only.  \<open>data.get\<close>
  is called outside it: on a parsed value that is not an object (a list, a string, a
  number, \<open>true\<close>, \<open>false\<close> or \<open>null\<close>) Python raises \<open>AttributeError\<close>, which
  nothing in the source catches.
\<close>

definition load_regex_config :: "cfg_path \<Rightarrow> error + (string \<times> json) list" where
  "load_regex_config p =
     (if \<not> path_exists p \<or> \<not> is_file p then Inl ConfigNotFound
      else case loaded p of
        Inl exc \<Rightarrow> Inl (ConfigMalformed exc)
      | Inr data \<Rightarrow>
          (case data of
             JObj d \<Rightarrow>
               if \<not> nonblank_str (map_of d ''question_regex'')
               then Inl (ConfigIncomplete ''question_regex'')
               else if \<not> nonblank_str (map_of d ''option_regex'')
               then Inl (ConfigIncomplete ''option_regex'')
               else Inr (setdefault (setdefault d ''question_flags'' (JArr []))
                           ''option_flags'' (JArr []))
           | _ \<Rightarrow> Inl (Uncaught AttributeError)))"

subsection \<open>Project 4: \<open>compile_regex_from_config\<close>\<close>

text \<open>Python's truth value of a parsed JSON value (\<open>if flags:\<close>).\<close>

fun truthy :: "json \<Rightarrow> bool" where
  "truthy JNull = False"
| "truthy (JBool b) = b"
| "truthy (JNum n) = (n \<noteq> 0)"
| "truthy (JStr s) = (s \<noteq> [])"
| "truthy (JArr xs) = (xs \<noteq> [])"
| "truthy (JObj d) = (d \<noteq> [])"

text \<open>\<open>isinstance(flags, list) and all(isinstance(x, str) for x in flags)\<close>, with the strings.\<close>

fun str_items :: "json list \<Rightarrow> string list option" where
  "str_items [] = Some []"
| "str_items (JStr s # xs) = (case str_items xs of None \<Rightarrow> None | Some ss \<Rightarrow> Some (s # ss))"
| "str_items (_ # xs) = None"

definition str_list :: "json \<Rightarrow> string list option" where
  "str_list v = (case v of JArr xs \<Rightarrow> str_items xs | _ \<Rightarrow> None)"

definition dict_get :: "('k \<times> 'v) list \<Rightarrow> 'k \<Rightarrow> 'v \<Rightarrow> 'v" where
  "dict_get d k dflt = (case map_of d k of Some v \<Rightarrow> v | None \<Rightarrow> dflt)"

definition compile_regex_from_config :: "'p engine \<Rightarrow> cfg_path \<Rightarrow> error + 'p" where
  "compile_regex_from_config re p =
     (if \<not> path_exists p \<or> \<not> is_file p then Inl ConfigNotFound
      else case loaded p of
        Inl exc \<Rightarrow> Inl (ConfigMalformed exc)
      | Inr data \<Rightarrow>
          (case data of
             JObj d \<Rightarrow>
               (case map_of d ''regex'' of
                  Some (JStr pattern) \<Rightarrow>
                    if strip pattern = [] then Inl (ConfigIncomplete ''regex'')
                    else
                      (let flags = dict_get d ''flags'' (JArr [])
                       in if truthy flags
                          then (case str_list flags of
                                  None \<Rightarrow> Inl FlagsNotList
                                | Some names \<Rightarrow>
                                    (case flags_loop names 0 of
                                       Inl e \<Rightarrow> Inl e
                                     | Inr flags_val \<Rightarrow> try_compile re pattern flags_val))
                          else try_compile re pattern 0)
                | _ \<Rightarrow> Inl (ConfigIncomplete ''regex''))
           | _ \<Rightarrow> Inl (Uncaught AttributeError)))"

section \<open>Project 5: the block extractor\<close>

text \<open>
  The configuration as \<open>parse_questions_with_config\<close> reads it, at the types that
  \<open>compile_pattern\<close> declares for its arguments: \<open>cfg["question_regex"]\<close> and
  \<open>cfg["option_regex"]\<close> are strings, \<open>cfg.get("question_flags")\<close> and
  \<open>cfg.get("option_flags")\<close> are lists of strings or \<open>None\<close>.
\<close>

record cfg =
  question_regex :: string
  question_flags :: "string list option"
  option_regex :: string
  option_flags :: "string list option"

text \<open>One entry of the result: \<open>{"question": q_text, "options": opts}\<close>.\<close>

record item =
  question :: string
  options :: "string list"

text \<open>
  \<open>m.groupdict().get(name, dflt).strip()\<close>: the default is taken only when the
  dictionary has no key \<open>name\<close>; a key whose value is \<open>None\<close> gives \<open>None\<close>, and
  \<open>None.strip()\<close> raises \<open>AttributeError\<close>.
\<close>

definition group_or :: "rmatch \<Rightarrow> string \<Rightarrow> string \<Rightarrow> string option" where
  "group_or m name dflt = dict_get (groupdict m) name (Some dflt)"

definition strip_value :: "string option \<Rightarrow> error + string" where
  "strip_value v = (case v of None \<Rightarrow> Inl (Uncaught AttributeError) | Some s \<Rightarrow> Inr (strip s))"

text \<open>The inner loop, over the matches of the option pattern in one block.\<close>

fun option_loop :: "rmatch list \<Rightarrow> string list \<Rightarrow> error + string list" where
  "option_loop [] opts = Inr opts"
| "option_loop (o_match # rest) opts =
     (case strip_value (group_or o_match ''option'' (group0 o_match)) of
        Inl e \<Rightarrow> Inl e
      | Inr opt_text \<Rightarrow>
          option_loop rest (if opt_text \<noteq> [] then opts @ [opt_text] else opts))"

text \<open>The outer loop, over the matches of the question pattern in the whole text.\<close>

fun question_loop :: "'p engine \<Rightarrow> 'p \<Rightarrow> rmatch list \<Rightarrow> item list \<Rightarrow> error + item list" where
  "question_loop re o_pat [] results = Inr results"
| "question_loop re o_pat (q_match # rest) results =
     (let block = group0 q_match
      in case strip_value (group_or q_match ''question'' block) of
           Inl e \<Rightarrow> Inl e
         | Inr q_text \<Rightarrow>
             (case option_loop (finditer re o_pat block) [] of
                Inl e \<Rightarrow> Inl e
              | Inr opts \<Rightarrow>
                  question_loop re o_pat rest
                    (results @ [\<lparr>question = q_text, options = opts\<rparr>])))"

definition parse_questions_with_config :: "'p engine \<Rightarrow> string \<Rightarrow> cfg \<Rightarrow> error + item list" where
  "parse_questions_with_config re full_text c =
     (case compile_pattern re (question_regex c) (question_flags c) of
        Inl e \<Rightarrow> Inl e
      | Inr q_pat \<Rightarrow>
          (case compile_pattern re (option_regex c) (option_flags c) of
             Inl e \<Rightarrow> Inl e
           | Inr o_pat \<Rightarrow> question_loop re o_pat (finditer re q_pat full_text) []))"

section \<open>Project 8: polymorphic questions\<close>

subsection \<open>The request schemas\<close>

text \<open>
  \<open>QuestionBaseIn\<close> and its three subclasses.  A value of \<open>QuestionIn\<close> is a request
  body whose \<open>type\<close> tag selects the class and whose fields have the declared types; the
  declared constraints (\<open>min_length=1\<close>, \<open>gt=0\<close>, the validator of \<open>MCQIn\<close>) are
  checked by \<open>validation_errors\<close>, which lists every violated constraint in the order of
  the fields, as the schema library reports them together.
\<close>

record QuestionBaseIn =
  subject_name :: string
  chapter_name :: "string option"
  question_text :: string
  source_file :: "string option"
  page_start :: "int option"
  page_end :: "int option"

datatype QuestionIn =
    SubjectiveIn QuestionBaseIn "string option"
  | TrueFalseIn QuestionBaseIn string string "bool option"
  | MCQIn QuestionBaseIn "string list"

text \<open>
  \<open>MinLength f\<close>: field \<open>f\<close> is shorter than its \<open>min_length\<close>;
  \<open>NotGreaterThan f\<close>: field \<open>f\<close> is not above its \<open>gt\<close> bound;
  \<open>InsufficientOptions\<close>: \<open>ValueError("MCQ requires at least two options.")\<close>.
\<close>

datatype validation_error = MinLength string | NotGreaterThan string | InsufficientOptions

definition must_have_at_least_two :: "string list \<Rightarrow> validation_error + string list" where
  "must_have_at_least_two v =
     (if v = [] \<or> length v < 2 then Inl InsufficientOptions else Inr v)"

definition min_length_1 :: "string \<Rightarrow> string \<Rightarrow> validation_error list" where
  "min_length_1 field v = (if length v < 1 then [MinLength field] else [])"

definition gt_0 :: "string \<Rightarrow> int option \<Rightarrow> validation_error list" where
  "gt_0 field v =
     (case v of None \<Rightarrow> [] | Some n \<Rightarrow> if n > 0 then [] else [NotGreaterThan field])"

definition validate_base :: "QuestionBaseIn \<Rightarrow> validation_error list" where
  "validate_base q =
     min_length_1 ''subject_name'' (subject_name q)
     @ min_length_1 ''question_text'' (question_text q)
     @ gt_0 ''page_start'' (page_start q)
     @ gt_0 ''page_end'' (page_end q)"

fun validation_errors :: "QuestionIn \<Rightarrow> validation_error list" where
  "validation_errors (SubjectiveIn b suggested_answer) = validate_base b"
| "validation_errors (TrueFalseIn b option_true_label option_false_label correct_is_true) =
     validate_base b"
| "validation_errors (MCQIn b answer_options) =
     validate_base b
     @ (case must_have_at_least_two answer_options of Inl e \<Rightarrow> [e] | Inr v \<Rightarrow> [])"

subsection \<open>The tables\<close>

text \<open>
  A row of \<open>questions\<close> (the base table; \<open>id\<close> is the key it is stored under and the
  server-side \<open>created_at\<close> is left out) and a row of one of the three extension
  tables, which the constructor names: \<open>questions_subjective\<close>,
  \<open>questions_truefalse\<close>, \<open>questions_mcq\<close>.
\<close>

record question_row =
  row_type :: string
  row_subject_name :: string
  row_chapter_name :: "string option"
  row_question_text :: string
  row_answer_options :: "string list option"
  row_source_file :: "string option"
  row_page_start :: "int option"
  row_page_end :: "int option"

datatype extension_row =
    SubjectiveRow "string option"
  | TrueFalseRow string string "bool option"
  | MCQRow "int list option"

record orm_object =
  base_row :: question_row
  ext_row :: extension_row

record tables =
  questions :: "(nat \<times> question_row) list"
  extensions :: "(nat \<times> extension_row) list"

text \<open>
  The session, with the transaction of the storage engine behind it: \<open>committed\<close> is what
  every other transaction can see, \<open>pending\<close> is what this transaction sees (the
  committed rows and its own writes), \<open>next_id\<close> is the sequence of \<open>questions.id\<close>.
  The storage engine is a collaborator: which of its operations fail is a parameter
  (\<open>fails\<close>) of the functions below.
\<close>

record session =
  committed :: tables
  pending :: tables
  next_id :: nat

datatype storage_op = InsertBase | InsertExtension | Commit

datatype storage_error = StorageError storage_op

definition empty_session :: session where
  "empty_session =
     \<lparr>committed = \<lparr>questions = [], extensions = []\<rparr>,
      pending = \<lparr>questions = [], extensions = []\<rparr>, next_id = 1\<rparr>"

text \<open>
  \<open>db.add(obj); db.flush()\<close>: the insert into the base table, which gives the object its
  \<open>id\<close>, then the insert into the extension table under the same \<open>id\<close>; both are
  writes of the open transaction.
\<close>

definition flush :: "(storage_op \<Rightarrow> bool) \<Rightarrow> orm_object \<Rightarrow> session \<Rightarrow> (storage_error + nat) \<times> session" where
  "flush fails obj db =
     (if fails InsertBase then (Inl (StorageError InsertBase), db)
      else
        (let i = next_id db;
             db1 = db\<lparr>pending := (pending db)\<lparr>questions := questions (pending db) @ [(i, base_row obj)]\<rparr>,
                      next_id := Suc i\<rparr>
         in if fails InsertExtension then (Inl (StorageError InsertExtension), db1)
            else (Inr i,
                  db1\<lparr>pending := (pending db1)\<lparr>extensions := extensions (pending db1) @ [(i, ext_row obj)]\<rparr>\<rparr>)))"

definition commit :: "(storage_op \<Rightarrow> bool) \<Rightarrow> session \<Rightarrow> (storage_error + unit) \<times> session" where
  "commit fails db =
     (if fails Commit then (Inl (StorageError Commit), db)
      else (Inr (), db\<lparr>committed := pending db\<rparr>))"

definition rollback :: "session \<Rightarrow> session" where
  "rollback db = db\<lparr>pending := committed db\<rparr>"

subsection \<open>The repository and the route\<close>

text \<open>\<open>(q.chapter_name or "").strip() or None\<close>.\<close>

definition strip_or_none :: "string option \<Rightarrow> string option" where
  "strip_or_none v =
     (let s = strip (case v of None \<Rightarrow> [] | Some t \<Rightarrow> t)
      in if s = [] then None else Some s)"

text \<open>
  The object that \<open>QuestionRepository.add\<close> builds, by the class of \<open>q\<close>.  The last
  branch of the source (\<open>raise ValueError("Unsupported question type")\<close>) is for a value
  of none of the three classes, which \<open>QuestionIn\<close> does not have.
\<close>

fun build :: "QuestionIn \<Rightarrow> orm_object" where
  "build (SubjectiveIn q suggested_answer) =
     \<lparr>base_row = \<lparr>row_type = ''subjective'',
                   row_subject_name = strip (subject_name q),
                   row_chapter_name = strip_or_none (chapter_name q),
                   row_question_text = question_text q,
                   row_answer_options = None,
                   row_source_file = source_file q,
                   row_page_start = page_start q,
                   row_page_end = page_end q\<rparr>,
      ext_row = SubjectiveRow suggested_answer\<rparr>"
| "build (TrueFalseIn q option_true_label option_false_label correct_is_true) =
     \<lparr>base_row = \<lparr>row_type = ''true_false'',
                   row_subject_name = strip (subject_name q),
                   row_chapter_name = strip_or_none (chapter_name q),
                   row_question_text = question_text q,
                   row_answer_options = None,
                   row_source_file = source_file q,
                   row_page_start = page_start q,
                   row_page_end = page_end q\<rparr>,
      ext_row = TrueFalseRow option_true_label option_false_label correct_is_true\<rparr>"
| "build (MCQIn q answer_options) =
     \<lparr>base_row = \<lparr>row_type = ''mcq'',
                   row_subject_name = strip (subject_name q),
                   row_chapter_name = strip_or_none (chapter_name q),
                   row_question_text = question_text q,
                   row_answer_options = Some answer_options,
                   row_source_file = source_file q,
                   row_page_start = page_start q,
                   row_page_end = page_end q\<rparr>,
      ext_row = MCQRow None\<rparr>"

definition add :: "(storage_op \<Rightarrow> bool) \<Rightarrow> session \<Rightarrow> QuestionIn \<Rightarrow> (storage_error + nat \<times> orm_object) \<times> session" where
  "add fails db q =
     (let obj = build q
      in case flush fails obj db of
           (Inl e, db1) \<Rightarrow> (Inl e, db1)
         | (Inr i, db1) \<Rightarrow> (Inr (i, obj), db1))"

text \<open>
  \<open>RequestInvalid\<close>: the body did not validate (the framework answers 422 and does not
  call the route function); \<open>PersistenceFailure\<close>: the \<open>except\<close> branch of
  \<open>create_question\<close>, \<open>HTTPException(500, "Failed to store question: ...")\<close>.
\<close>

datatype api_error = RequestInvalid "validation_error list" | PersistenceFailure storage_error

text \<open>The body of \<open>create_question\<close>; the result is \<open>(obj.id, obj.type)\<close>.\<close>

definition create_question :: "(storage_op \<Rightarrow> bool) \<Rightarrow> QuestionIn \<Rightarrow> session \<Rightarrow> (api_error + nat \<times> string) \<times> session" where
  "create_question fails payload db =
     (case add fails db payload of
        (Inl e, db1) \<Rightarrow> (Inl (PersistenceFailure e), rollback db1)
      | (Inr (i, obj), db1) \<Rightarrow>
          (case commit fails db1 of
             (Inl e, db2) \<Rightarrow> (Inl (PersistenceFailure e), rollback db2)
           | (Inr u, db2) \<Rightarrow> (Inr (i, row_type (base_row obj)), db2)))"

text \<open>
  The route \<open>POST /questions\<close>: the parameter \<open>payload: QuestionIn\<close> is validated before
  \<open>create_question\<close> runs, and a body that does not validate never reaches it.
\<close>

definition post_questions :: "(storage_op \<Rightarrow> bool) \<Rightarrow> QuestionIn \<Rightarrow> session \<Rightarrow> (api_error + nat \<times> string) \<times> session" where
  "post_questions fails payload db =
     (case validation_errors payload of
        [] \<Rightarrow> create_question fails payload db
      | e # es \<Rightarrow> (Inl (RequestInvalid (e # es)), db))"

text \<open>"The base row is mandatory, 1:1": both tables hold the same identities.\<close>

definition paired :: "tables \<Rightarrow> bool" where
  "paired t = (map fst (questions t) = map fst (extensions t))"

section \<open>A sample engine\<close>

text \<open>
  What Python's \<open>re\<close> yields on a few small inputs, as a table, for evaluating the
  functions above on concrete data.  A compiled pattern is the pair of its expression and
  its flags; \<open>re.compile\<close> rejects the expression \<open>(\<close> with \<open>re.error\<close>.
  \<^item> \<open>Q[0-9]+[.][^Q]*\<close> on \<open>Q1. A? (a) x (b)  Q2. B? (a) y\<close> matches twice; the
    pattern has no named group.
  \<^item> \<open>[(][a-d][)] *(?P<option>[^(]*)\<close> matches twice in the first block (the second
    option is empty) and once in the second.
  \<^item> \<open>[(][a-d][)](?P<option> x)?\<close> matches \<open>(a) x\<close> with its group and \<open>(b)\<close>
    without it.
  \<^item> \<open>Q(?P<question>x)?\<close> matches \<open>Q\<close> without its group \<open>question\<close>.
\<close>

definition sample_text :: string where
  "sample_text = ''Q1. A? (a) x (b)  Q2. B? (a) y''"

definition sample_q :: string where
  "sample_q = ''Q[0-9]+[.][^Q]*''"

definition sample_o :: string where
  "sample_o = ''[(][a-d][)] *(?P<option>[^(]*)''"

definition sample_o2 :: string where
  "sample_o2 = ''[(][a-d][)](?P<option> x)?''"

definition sample_matches :: "((string \<times> string) \<times> rmatch list) list" where
  "sample_matches =
     [((sample_q, sample_text),
         [\<lparr>group0 = ''Q1. A? (a) x (b)  '', groupdict = []\<rparr>,
          \<lparr>group0 = ''Q2. B? (a) y'', groupdict = []\<rparr>]),
      ((sample_o, ''Q1. A? (a) x (b)  ''),
         [\<lparr>group0 = ''(a) x '', groupdict = [(''option'', Some ''x '')]\<rparr>,
          \<lparr>group0 = ''(b)  '', groupdict = [(''option'', Some [])]\<rparr>]),
      ((sample_o, ''Q2. B? (a) y''),
         [\<lparr>group0 = ''(a) y'', groupdict = [(''option'', Some ''y'')]\<rparr>]),
      ((sample_o2, ''Q1. A? (a) x (b)  ''),
         [\<lparr>group0 = ''(a) x'', groupdict = [(''option'', Some '' x'')]\<rparr>,
          \<lparr>group0 = ''(b)'', groupdict = [(''option'', None)]\<rparr>]),
      ((sample_o2, ''Q2. B? (a) y''),
         [\<lparr>group0 = ''(a)'', groupdict = [(''option'', None)]\<rparr>]),
      ((sample_o, sample_text),
         [\<lparr>group0 = ''(a) x '', groupdict = [(''option'', Some ''x '')]\<rparr>,
          \<lparr>group0 = ''(b)  Q2. B? '', groupdict = [(''option'', Some ''Q2. B? '')]\<rparr>,
          \<lparr>group0 = ''(a) y'', groupdict = [(''option'', Some ''y'')]\<rparr>]),
      ((''Q(?P<question>x)?'', ''Q''),
         [\<lparr>group0 = ''Q'', groupdict = [(''question'', None)]\<rparr>])]"

definition sample_engine :: "(string \<times> int) engine" where
  "sample_engine =
     \<lparr>re_compile = (\<lambda>pattern flags. if pattern = ''('' then ReError ''unterminated subpattern''
                                    else Compiled (pattern, flags)),
      finditer = (\<lambda>p text. dict_get sample_matches (fst p, text) [])\<rparr>"

section \<open>The specification's words, for comparison\<close>

text \<open>
  "Flags combine by bitwise union": the value of a name is the flag its upper-case form
  names, and the value of a list is the union of the values of its names.
\<close>

definition flag_of :: "string \<Rightarrow> int" where
  "flag_of name = (case FLAG_MAP (upper name) of Some f \<Rightarrow> f | None \<Rightarrow> 0)"

definition union_flags :: "string list \<Rightarrow> int" where
  "union_flags fs = foldr (\<lambda>name v. flag_of name OR v) fs 0"

text \<open>
  "If the rule defines a named group, that group's text is the extracted value; otherwise
  the full match text is used", trimmed.  A group \<open>participates\<close> in a match when the
  match has a text for it or the pattern has no such group.
\<close>

definition participates :: "string \<Rightarrow> rmatch \<Rightarrow> bool" where
  "participates name m = (map_of (groupdict m) name \<noteq> Some None)"

definition extracted_text :: "string \<Rightarrow> rmatch \<Rightarrow> string" where
  "extracted_text name m =
     strip (case map_of (groupdict m) name of Some (Some s) \<Rightarrow> s | _ \<Rightarrow> group0 m)"

text \<open>"Drop any fragment that is empty after trimming", keeping the order of the matches.\<close>

definition kept_options :: "rmatch list \<Rightarrow> string list" where
  "kept_options oms = filter (\<lambda>s. s \<noteq> []) (map (extracted_text ''option'') oms)"

definition all_participate :: "'p engine \<Rightarrow> 'p \<Rightarrow> rmatch list \<Rightarrow> bool" where
  "all_participate re o_pat qms =
     list_all (\<lambda>m. participates ''question'' m
                   \<and> list_all (participates ''option'') (finditer re o_pat (group0 m))) qms"

section \<open>Theorems\<close>

subsection \<open>The flag loop\<close>

lemma dom_FLAG_MAP:
  "dom FLAG_MAP = {''IGNORECASE'', ''MULTILINE'', ''DOTALL'', ''UNICODE'', ''ASCII'', ''VERBOSE''}"
  unfolding FLAG_MAP_def by (simp add: dom_map_of_conv_image_fst)

lemma flags_loop_known:
  "\<forall>n\<in>set fs. upper n \<in> dom FLAG_MAP \<Longrightarrow> flags_loop fs a = Inr (a OR union_flags fs)"
proof (induction fs arbitrary: a)
  case Nil
  then show ?case by (simp add: union_flags_def)
next
  case (Cons n fs)
  then obtain f where f: "FLAG_MAP (upper n) = Some f" by auto
  have "flags_loop (n # fs) a = flags_loop fs (a OR f)" using f by simp
  also have "\<dots> = Inr ((a OR f) OR union_flags fs)" using Cons by simp
  finally show ?case using f by (simp add: union_flags_def flag_of_def or.assoc)
qed

lemma flags_loop_unknown:
  "\<exists>n\<in>set fs. upper n \<notin> dom FLAG_MAP \<Longrightarrow>
   \<exists>bad\<in>set fs. upper bad \<notin> dom FLAG_MAP \<and> flags_loop fs a = Inl (InvalidFlag bad)"
proof (induction fs arbitrary: a)
  case Nil
  then show ?case by simp
next
  case (Cons n fs)
  show ?case
  proof (cases "FLAG_MAP (upper n)")
    case None
    then show ?thesis by (auto simp: domIff)
  next
    case (Some f)
    with Cons.prems have "\<exists>n\<in>set fs. upper n \<notin> dom FLAG_MAP" by auto
    from Cons.IH[OF this, of "a OR f"] Some show ?thesis by auto
  qed
qed

lemma bit_union_flags:
  "bit (union_flags fs) k \<longleftrightarrow> (\<exists>u\<in>upper ` set fs. \<exists>f. FLAG_MAP u = Some f \<and> bit f k)"
  by (induction fs) (auto simp: union_flags_def flag_of_def bit_or_iff split: option.splits)

lemma union_flags_cong:
  "upper ` set fs = upper ` set gs \<Longrightarrow> union_flags fs = union_flags gs"
  by (rule bit_eqI) (simp add: bit_union_flags)

lemma try_compile_not_flag: "try_compile re p v \<noteq> Inl (InvalidFlag n)"
  by (simp add: try_compile_def split: compile_result.splits)

lemma compile_pattern_known:
  "\<forall>n\<in>set fs. upper n \<in> dom FLAG_MAP \<Longrightarrow>
   compile_pattern re p (Some fs) = try_compile re p (union_flags fs)"
  by (simp add: compile_pattern_def or_empty_def flags_loop_known)

lemma compile_pattern_unknown:
  "\<exists>n\<in>set fs. upper n \<notin> dom FLAG_MAP \<Longrightarrow>
   \<exists>bad\<in>set fs. upper bad \<notin> dom FLAG_MAP \<and> compile_pattern re p (Some fs) = Inl (InvalidFlag bad)"
proof -
  assume "\<exists>n\<in>set fs. upper n \<notin> dom FLAG_MAP"
  from flags_loop_unknown[OF this, of 0]
  show ?thesis by (auto simp: compile_pattern_def or_empty_def)
qed

lemma str_items_map_JStr: "str_items (map JStr fs) = Some fs"
  by (induction fs) simp_all

subsection \<open>Trimming\<close>

lemma rstrip_keeps_head:
  assumes "\<not> isspace x"
  shows "\<exists>ys. rstrip (x # t) = x # ys"
proof -
  have "dropWhile isspace (rev t @ [x]) = dropWhile isspace (rev t) @ [x]
      \<or> dropWhile isspace (rev t @ [x]) = [x]"
    using assms by (simp add: dropWhile_append)
  then show ?thesis
  proof
    assume "dropWhile isspace (rev t @ [x]) = dropWhile isspace (rev t) @ [x]"
    then have "rstrip (x # t) = x # rev (dropWhile isspace (rev t))"
      by (simp add: rstrip_def)
    then show ?thesis by blast
  next
    assume "dropWhile isspace (rev t @ [x]) = [x]"
    then have "rstrip (x # t) = x # []" by (simp add: rstrip_def)
    then show ?thesis by blast
  qed
qed

lemma rstrip_idem: "rstrip (rstrip s) = rstrip s"
  by (simp add: rstrip_def)

lemma strip_idem: "strip (strip s) = strip s"
proof (cases "lstrip s")
  case Nil
  then have e: "strip s = []" by (simp add: strip_def rstrip_def)
  have "strip [] = []" by (simp add: strip_def rstrip_def lstrip_def)
  with e show ?thesis by simp
next
  case (Cons x t)
  then have nx: "\<not> isspace x"
    unfolding lstrip_def by (metis hd_dropWhile list.sel(1) list.distinct(1))
  from rstrip_keeps_head[OF nx, of t] obtain ys where ys: "rstrip (x # t) = x # ys" by blast
  have "strip s = x # ys" using Cons ys by (simp add: strip_def)
  moreover have "lstrip (x # ys) = x # ys" using nx by (simp add: lstrip_def)
  moreover have "rstrip (x # ys) = x # ys" using ys rstrip_idem[of "x # t"] by simp
  ultimately show ?thesis by (simp add: strip_def)
qed

subsection \<open>The two loops of the extractor\<close>

lemma strip_value_participates:
  "participates name m \<Longrightarrow>
   strip_value (group_or m name (group0 m)) = Inr (extracted_text name m)"
  by (auto simp: participates_def strip_value_def group_or_def dict_get_def extracted_text_def
      split: option.splits)

lemma strip_value_unmatched:
  "\<not> participates name m \<Longrightarrow>
   strip_value (group_or m name (group0 m)) = Inl (Uncaught AttributeError)"
  by (auto simp: participates_def strip_value_def group_or_def dict_get_def)

lemma option_loop_ok:
  "list_all (participates ''option'') oms \<Longrightarrow>
   option_loop oms acc = Inr (acc @ kept_options oms)"
proof (induction oms arbitrary: acc)
  case Nil
  then show ?case by (simp add: kept_options_def)
next
  case (Cons om oms)
  then have p: "participates ''option'' om" and r: "list_all (participates ''option'') oms"
    by simp_all
  show ?case
    by (simp add: strip_value_participates[OF p] Cons.IH[OF r] kept_options_def)
qed

lemma option_loop_fail:
  "\<not> list_all (participates ''option'') oms \<Longrightarrow>
   option_loop oms acc = Inl (Uncaught AttributeError)"
proof (induction oms arbitrary: acc)
  case Nil
  then show ?case by simp
next
  case (Cons om oms)
  show ?case
  proof (cases "participates ''option'' om")
    case True
    with Cons.prems have "\<not> list_all (participates ''option'') oms" by simp
    from Cons.IH[OF this] show ?thesis by (simp add: strip_value_participates[OF True])
  next
    case False
    then show ?thesis by (simp add: strip_value_unmatched)
  qed
qed

lemma question_loop_ok:
  "all_participate re o_pat qms \<Longrightarrow>
   question_loop re o_pat qms acc =
     Inr (acc @ map (\<lambda>m. \<lparr>question = extracted_text ''question'' m,
                           options = kept_options (finditer re o_pat (group0 m))\<rparr>) qms)"
proof (induction qms arbitrary: acc)
  case Nil
  then show ?case by simp
next
  case (Cons m qms)
  then have p: "participates ''question'' m"
    and po: "list_all (participates ''option'') (finditer re o_pat (group0 m))"
    and r: "all_participate re o_pat qms"
    by (simp_all add: all_participate_def)
  show ?case
    by (simp add: strip_value_participates[OF p] option_loop_ok[OF po] Cons.IH[OF r])
qed

lemma question_loop_fail:
  "\<not> all_participate re o_pat qms \<Longrightarrow>
   question_loop re o_pat qms acc = Inl (Uncaught AttributeError)"
proof (induction qms arbitrary: acc)
  case Nil
  then show ?case by (simp add: all_participate_def)
next
  case (Cons m qms)
  show ?case
  proof (cases "participates ''question'' m")
    case False
    then show ?thesis by (simp add: strip_value_unmatched)
  next
    case True
    show ?thesis
    proof (cases "list_all (participates ''option'') (finditer re o_pat (group0 m))")
      case False
      then show ?thesis
        by (simp add: strip_value_participates[OF True] option_loop_fail)
    next
      case po: True
      with True Cons.prems have "\<not> all_participate re o_pat qms"
        by (simp add: all_participate_def)
      from Cons.IH[OF this] show ?thesis
        by (simp add: strip_value_participates[OF True] option_loop_ok[OF po])
    qed
  qed
qed

lemma parse_compiled:
  "compile_pattern re (question_regex c) (question_flags c) = Inr q_pat \<Longrightarrow>
   compile_pattern re (option_regex c) (option_flags c) = Inr o_pat \<Longrightarrow>
   parse_questions_with_config re text c = question_loop re o_pat (finditer re q_pat text) []"
  by (simp add: parse_questions_with_config_def)

lemma parse_returns_iff:
  assumes "compile_pattern re (question_regex c) (question_flags c) = Inr q_pat"
    and "compile_pattern re (option_regex c) (option_flags c) = Inr o_pat"
  shows "(\<exists>bs. parse_questions_with_config re text c = Inr bs)
         \<longleftrightarrow> all_participate re o_pat (finditer re q_pat text)"
proof (cases "all_participate re o_pat (finditer re q_pat text)")
  case True
  then show ?thesis
    by (simp add: parse_compiled[OF assms] question_loop_ok)
next
  case False
  then show ?thesis
    by (simp add: parse_compiled[OF assms] question_loop_fail)
qed

lemma returned_blocks_length:
  assumes "compile_pattern re (question_regex c) (question_flags c) = Inr q_pat"
    and "compile_pattern re (option_regex c) (option_flags c) = Inr o_pat"
    and "parse_questions_with_config re text c = Inr bs"
  shows "length bs = length (finditer re q_pat text)"
proof -
  from parse_returns_iff[OF assms(1,2), of "text"] assms(3)
  have "all_participate re o_pat (finditer re q_pat text)" by blast
  from question_loop_ok[OF this, of "[]"] assms(3) show ?thesis
    by (auto simp: parse_compiled[OF assms(1,2)])
qed

lemma sample_compile:
  "compile_pattern sample_engine sample_q None = Inr (sample_q, 0)"
  "compile_pattern sample_engine sample_o None = Inr (sample_o, 0)"
  "compile_pattern sample_engine sample_o2 None = Inr (sample_o2, 0)"
  "compile_pattern sample_engine ''Q(?P<question>x)?'' None = Inr (''Q(?P<question>x)?'', 0)"
  by (simp_all add: compile_pattern_def or_empty_def try_compile_def sample_engine_def
      sample_q_def sample_o_def sample_o2_def)

lemma sample_finditer:
  "finditer sample_engine (sample_q, 0) sample_text =
     [\<lparr>group0 = ''Q1. A? (a) x (b)  '', groupdict = []\<rparr>,
      \<lparr>group0 = ''Q2. B? (a) y'', groupdict = []\<rparr>]"
  "finditer sample_engine (sample_o, 0) ''Q1. A? (a) x (b)  '' =
     [\<lparr>group0 = ''(a) x '', groupdict = [(''option'', Some ''x '')]\<rparr>,
      \<lparr>group0 = ''(b)  '', groupdict = [(''option'', Some [])]\<rparr>]"
  "finditer sample_engine (sample_o, 0) ''Q2. B? (a) y'' =
     [\<lparr>group0 = ''(a) y'', groupdict = [(''option'', Some ''y'')]\<rparr>]"
  "finditer sample_engine (sample_o2, 0) ''Q1. A? (a) x (b)  '' =
     [\<lparr>group0 = ''(a) x'', groupdict = [(''option'', Some '' x'')]\<rparr>,
      \<lparr>group0 = ''(b)'', groupdict = [(''option'', None)]\<rparr>]"
  "finditer sample_engine (''Q(?P<question>x)?'', 0) ''Q'' =
     [\<lparr>group0 = ''Q'', groupdict = [(''question'', None)]\<rparr>]"
  by (simp_all add: sample_engine_def sample_matches_def dict_get_def
      sample_q_def sample_o_def sample_o2_def sample_text_def)

lemmas strip_eval = strip_def lstrip_def rstrip_def isspace_def

subsection \<open>Unknown flag names\<close>

text \<open>
  C6.  A flag list that contains a name whose upper-case form is not one of the six
  recognised names never compiles: \<open>compile_pattern\<close> fails with \<open>InvalidFlag\<close>,
  naming a name of the list that is not recognised, whatever the expression is and
  whatever the engine would do with it.  The same holds for \<open>compile_regex_from_config\<close>
  of Project 4 on a configuration whose \<open>regex\<close> is a non-blank string and whose
  \<open>flags\<close> is that list.  In \<open>parse_questions_with_config\<close> the failure comes from
  compiling, before any text is matched: the result is the same error for every text and
  every matcher, for the question flags always and for the option flags once the question
  pattern has compiled.
\<close>

theorem unknown_flag_rejected:
  assumes "name \<in> set flags" and "upper name \<notin> dom FLAG_MAP"
  shows "\<exists>bad\<in>set flags. upper bad \<notin> dom FLAG_MAP
           \<and> compile_pattern re pattern (Some flags) = Inl (InvalidFlag bad)
           \<and> parse_questions_with_config re text (c\<lparr>question_flags := Some flags\<rparr>)
               = Inl (InvalidFlag bad)
           \<and> ((\<exists>q_pat. compile_pattern re (question_regex c) (question_flags c) = Inr q_pat)
               \<longrightarrow> parse_questions_with_config re text (c\<lparr>option_flags := Some flags\<rparr>)
                     = Inl (InvalidFlag bad))
           \<and> (path_exists p \<and> is_file p \<and> loaded p = Inr (JObj d)
                \<and> map_of d ''regex'' = Some (JStr pattern) \<and> strip pattern \<noteq> []
                \<and> map_of d ''flags'' = Some (JArr (map JStr flags))
               \<longrightarrow> compile_regex_from_config re p = Inl (InvalidFlag bad))"
proof -
  from assms have ex: "\<exists>n\<in>set flags. upper n \<notin> dom FLAG_MAP" by blast
  from flags_loop_unknown[OF ex, of 0] obtain bad where
    bad: "bad \<in> set flags" "upper bad \<notin> dom FLAG_MAP"
    and loop: "flags_loop flags 0 = Inl (InvalidFlag bad)" by blast
  have cp: "compile_pattern re' pat (Some flags) = Inl (InvalidFlag bad)" for re' :: "'a engine" and pat
    using loop by (simp add: compile_pattern_def or_empty_def)
  have pq: "parse_questions_with_config re text (c\<lparr>question_flags := Some flags\<rparr>)
              = Inl (InvalidFlag bad)"
    by (simp add: parse_questions_with_config_def cp)
  have po: "parse_questions_with_config re text (c\<lparr>option_flags := Some flags\<rparr>)
              = Inl (InvalidFlag bad)"
    if "compile_pattern re (question_regex c) (question_flags c) = Inr q_pat" for q_pat
    using that by (simp add: parse_questions_with_config_def cp)
  have ne: "flags \<noteq> []" using assms(1) by auto
  have p4: "compile_regex_from_config re p = Inl (InvalidFlag bad)"
    if "path_exists p" "is_file p" "loaded p = Inr (JObj d)"
       "map_of d ''regex'' = Some (JStr pattern)" "strip pattern \<noteq> []"
       "map_of d ''flags'' = Some (JArr (map JStr flags))"
    using that ne loop
    by (simp add: compile_regex_from_config_def dict_get_def str_list_def str_items_map_JStr)
  from bad cp pq po p4 show ?thesis by blast
qed

theorem unknown_flag_rejected_witness:
  "''BOGUS'' \<in> set [''IGNORECASE'', ''BOGUS''] \<and> upper ''BOGUS'' \<notin> dom FLAG_MAP
   \<and> compile_pattern sample_engine sample_q (Some [''IGNORECASE'', ''BOGUS''])
       = Inl (InvalidFlag ''BOGUS'')
   \<and> parse_questions_with_config sample_engine sample_text
        \<lparr>question_regex = sample_q, question_flags = Some [''IGNORECASE'', ''BOGUS''],
         option_regex = sample_o, option_flags = None\<rparr> = Inl (InvalidFlag ''BOGUS'')
   \<and> parse_questions_with_config sample_engine sample_text
        \<lparr>question_regex = sample_q, question_flags = None,
         option_regex = sample_o, option_flags = Some [''IGNORECASE'', ''BOGUS'']\<rparr>
       = Inl (InvalidFlag ''BOGUS'')
   \<and> compile_regex_from_config sample_engine
        \<lparr>path_exists = True, is_file = True,
         loaded = Inr (JObj [(''regex'', JStr sample_q),
                             (''flags'', JArr [JStr ''IGNORECASE'', JStr ''BOGUS''])])\<rparr>
       = Inl (InvalidFlag ''BOGUS'')"
proof -
  have up: "upper ''BOGUS'' \<notin> dom FLAG_MAP" "upper ''IGNORECASE'' \<in> dom FLAG_MAP"
    by (simp_all add: dom_FLAG_MAP upper_def upper_char_def)
  have mem: "''BOGUS'' \<in> set [''IGNORECASE'', ''BOGUS'']" by simp
  have q: "\<exists>q_pat. compile_pattern sample_engine sample_q None = Inr q_pat"
    by (simp add: compile_pattern_def or_empty_def try_compile_def sample_engine_def sample_q_def)
  have s: "strip sample_q \<noteq> []"
    by (simp add: strip_def lstrip_def rstrip_def isspace_def sample_q_def)
  note t = unknown_flag_rejected[OF mem up(1), of sample_engine sample_q sample_text
      "\<lparr>question_regex = sample_q, question_flags = None, option_regex = sample_o, option_flags = None\<rparr>"
      "\<lparr>path_exists = True, is_file = True,
         loaded = Inr (JObj [(''regex'', JStr sample_q),
                             (''flags'', JArr [JStr ''IGNORECASE'', JStr ''BOGUS''])])\<rparr>"
      "[(''regex'', JStr sample_q), (''flags'', JArr [JStr ''IGNORECASE'', JStr ''BOGUS''])]"]
  from t obtain bad where b: "bad \<in> set [''IGNORECASE'', ''BOGUS'']" "upper bad \<notin> dom FLAG_MAP"
    and r: "compile_pattern sample_engine sample_q (Some [''IGNORECASE'', ''BOGUS'']) = Inl (InvalidFlag bad)"
      "parse_questions_with_config sample_engine sample_text
        (\<lparr>question_regex = sample_q, question_flags = None, option_regex = sample_o, option_flags = None\<rparr>
           \<lparr>question_flags := Some [''IGNORECASE'', ''BOGUS'']\<rparr>) = Inl (InvalidFlag bad)"
      "(\<exists>q_pat. compile_pattern sample_engine
           (question_regex \<lparr>question_regex = sample_q, question_flags = None, option_regex = sample_o, option_flags = None\<rparr>)
           (question_flags \<lparr>question_regex = sample_q, question_flags = None, option_regex = sample_o, option_flags = None\<rparr>) = Inr q_pat)
        \<longrightarrow> parse_questions_with_config sample_engine sample_text
        (\<lparr>question_regex = sample_q, question_flags = None, option_regex = sample_o, option_flags = None\<rparr>
           \<lparr>option_flags := Some [''IGNORECASE'', ''BOGUS'']\<rparr>) = Inl (InvalidFlag bad)"
      "path_exists \<lparr>path_exists = True, is_file = True,
         loaded = Inr (JObj [(''regex'', JStr sample_q),
                             (''flags'', JArr [JStr ''IGNORECASE'', JStr ''BOGUS''])])\<rparr> \<and>
       is_file \<lparr>path_exists = True, is_file = True,
         loaded = Inr (JObj [(''regex'', JStr sample_q),
                             (''flags'', JArr [JStr ''IGNORECASE'', JStr ''BOGUS''])])\<rparr> \<and>
       loaded \<lparr>path_exists = True, is_file = True,
         loaded = Inr (JObj [(''regex'', JStr sample_q),
                             (''flags'', JArr [JStr ''IGNORECASE'', JStr ''BOGUS''])])\<rparr>
         = Inr (JObj [(''regex'', JStr sample_q), (''flags'', JArr [JStr ''IGNORECASE'', JStr ''BOGUS''])]) \<and>
       map_of [(''regex'', JStr sample_q), (''flags'', JArr [JStr ''IGNORECASE'', JStr ''BOGUS''])] ''regex''
         = Some (JStr sample_q) \<and> strip sample_q \<noteq> [] \<and>
       map_of [(''regex'', JStr sample_q), (''flags'', JArr [JStr ''IGNORECASE'', JStr ''BOGUS''])] ''flags''
         = Some (JArr (map JStr [''IGNORECASE'', ''BOGUS'']))
       \<longrightarrow> compile_regex_from_config sample_engine \<lparr>path_exists = True, is_file = True,
         loaded = Inr (JObj [(''regex'', JStr sample_q),
                             (''flags'', JArr [JStr ''IGNORECASE'', JStr ''BOGUS''])])\<rparr> = Inl (InvalidFlag bad)"
    by blast
  from b up have bad: "bad = ''BOGUS''" by auto
  show ?thesis using r q s up mem unfolding bad by simp
qed

subsection \<open>Order and repetition of flags\<close>

text \<open>
  C7.  When every name of a flag list is recognised, \<open>compile_pattern\<close> hands the engine
  the bitwise union of the flags the names stand for.  Two such lists with the same set of
  names (here: of upper-case forms, which is more general), in any order and with any
  repetitions, therefore give the same result for every expression.  An absent flag list
  and an empty one both compile with the flag value 0.
\<close>

theorem flags_order_and_duplicates:
  assumes "\<forall>n\<in>set fs. upper n \<in> dom FLAG_MAP" and "upper ` set fs = upper ` set gs"
  shows "compile_pattern re p (Some fs) = compile_pattern re p (Some gs)
       \<and> flags_loop fs 0 = Inr (union_flags fs)
       \<and> compile_pattern re p (Some fs) = try_compile re p (union_flags fs)
       \<and> compile_pattern re p (Some (fs @ fs)) = compile_pattern re p (Some fs)
       \<and> compile_pattern re p (Some (rev fs)) = compile_pattern re p (Some fs)
       \<and> compile_pattern re p None = try_compile re p 0
       \<and> compile_pattern re p (Some []) = try_compile re p 0"
proof -
  have known_gs: "\<forall>n\<in>set gs. upper n \<in> dom FLAG_MAP"
  proof
    fix n assume "n \<in> set gs"
    then have "upper n \<in> upper ` set fs" using assms(2) by blast
    then show "upper n \<in> dom FLAG_MAP" using assms(1) by auto
  qed
  have same: "union_flags fs = union_flags gs"
    by (rule union_flags_cong) (rule assms(2))
  have 1: "compile_pattern re p (Some fs) = compile_pattern re p (Some gs)"
    by (simp add: compile_pattern_known[OF assms(1)] compile_pattern_known[OF known_gs] same)
  have 2: "flags_loop fs 0 = Inr (union_flags fs)"
    using flags_loop_known[OF assms(1), of 0] by simp
  have 3: "compile_pattern re p (Some fs) = try_compile re p (union_flags fs)"
    by (rule compile_pattern_known[OF assms(1)])
  have "\<forall>n\<in>set (fs @ fs). upper n \<in> dom FLAG_MAP" using assms(1) by simp
  from compile_pattern_known[OF this]
  have 4: "compile_pattern re p (Some (fs @ fs)) = compile_pattern re p (Some fs)"
    by (simp add: 3 union_flags_cong[of "fs @ fs" fs])
  have "\<forall>n\<in>set (rev fs). upper n \<in> dom FLAG_MAP" using assms(1) by simp
  from compile_pattern_known[OF this]
  have 5: "compile_pattern re p (Some (rev fs)) = compile_pattern re p (Some fs)"
    by (simp add: 3 union_flags_cong[of "rev fs" fs])
  have 6: "compile_pattern re p None = try_compile re p 0"
    "compile_pattern re p (Some []) = try_compile re p 0"
    by (simp_all add: compile_pattern_def or_empty_def)
  from 1 2 3 4 5 6 show ?thesis by blast
qed

theorem flags_order_and_duplicates_witness:
  "compile_pattern sample_engine sample_q (Some [''IGNORECASE'', ''DOTALL'', ''IGNORECASE''])
     = compile_pattern sample_engine sample_q (Some [''dotall'', ''IGNORECASE''])
   \<and> compile_pattern sample_engine sample_q (Some [''IGNORECASE'', ''DOTALL'', ''IGNORECASE''])
     = Inr (sample_q, 18)
   \<and> compile_pattern sample_engine sample_q None = Inr (sample_q, 0)"
proof -
  have k: "\<forall>n\<in>set [''IGNORECASE'', ''DOTALL'', ''IGNORECASE'']. upper n \<in> dom FLAG_MAP"
    by (simp add: dom_FLAG_MAP upper_def upper_char_def)
  have e: "upper ` set [''IGNORECASE'', ''DOTALL'', ''IGNORECASE''] = upper ` set [''dotall'', ''IGNORECASE'']"
    by (auto simp: upper_def upper_char_def)
  have u: "union_flags [''IGNORECASE'', ''DOTALL'', ''IGNORECASE''] = 18"
    by (simp add: union_flags_def flag_of_def FLAG_MAP_def upper_def upper_char_def)
  have t: "try_compile sample_engine sample_q v = Inr (sample_q, v)" for v
    by (simp add: try_compile_def sample_engine_def sample_q_def)
  from flags_order_and_duplicates[OF k e, of sample_engine sample_q]
  have 1: "compile_pattern sample_engine sample_q (Some [''IGNORECASE'', ''DOTALL'', ''IGNORECASE''])
     = compile_pattern sample_engine sample_q (Some [''dotall'', ''IGNORECASE''])"
    and 2: "compile_pattern sample_engine sample_q (Some [''IGNORECASE'', ''DOTALL'', ''IGNORECASE''])
     = try_compile sample_engine sample_q (union_flags [''IGNORECASE'', ''DOTALL'', ''IGNORECASE''])"
    and 3: "compile_pattern sample_engine sample_q None = try_compile sample_engine sample_q 0"
    by blast+
  from 2 have 4: "compile_pattern sample_engine sample_q (Some [''IGNORECASE'', ''DOTALL'', ''IGNORECASE''])
     = Inr (sample_q, 18)" by (simp only: u t)
  from 3 have 5: "compile_pattern sample_engine sample_q None = Inr (sample_q, 0)" by (simp only: t)
  from 1 4 5 show ?thesis by blast
qed

subsection \<open>The case of flag names\<close>

text \<open>
  C10.  A flag name is looked up by its upper-case form.  A name whose upper-case form is
  one of \<open>IGNORECASE\<close>, \<open>MULTILINE\<close>, \<open>DOTALL\<close>, \<open>UNICODE\<close>, \<open>ASCII\<close>,
  \<open>VERBOSE\<close> is accepted and stands for the flag of that form; lists whose names agree
  up to case compile alike, so \<open>ignorecase\<close>, \<open>IgnoreCase\<close> and \<open>IGNORECASE\<close> all
  compile with \<open>re.IGNORECASE\<close>; and \<open>compile_pattern\<close> rejects a list as
  \<open>InvalidFlag\<close> exactly when one of its names has an upper-case form outside the six.
  The loop of Project 4 is the same one.
\<close>

theorem flag_names_case_insensitive:
  "((\<forall>n\<in>set fs. upper n \<in> {''IGNORECASE'', ''MULTILINE'', ''DOTALL'', ''UNICODE'', ''ASCII'', ''VERBOSE''})
      \<longrightarrow> compile_pattern re p (Some fs) = try_compile re p (union_flags fs)
        \<and> (map upper gs = map upper fs
             \<longrightarrow> compile_pattern re p (Some gs) = compile_pattern re p (Some fs)))
   \<and> ((\<exists>bad. compile_pattern re p (Some fs) = Inl (InvalidFlag bad))
        \<longleftrightarrow> (\<exists>n\<in>set fs. upper n \<notin> {''IGNORECASE'', ''MULTILINE'', ''DOTALL'', ''UNICODE'', ''ASCII'', ''VERBOSE''}))
   \<and> compile_pattern re p (Some [''ignorecase'']) = try_compile re p 2
   \<and> compile_pattern re p (Some [''IgnoreCase'']) = try_compile re p 2
   \<and> compile_pattern re p (Some [''IGNORECASE'']) = try_compile re p 2
   \<and> (path_exists c \<and> is_file c \<and> loaded c = Inr (JObj d)
        \<and> map_of d ''regex'' = Some (JStr p) \<and> strip p \<noteq> []
        \<and> map_of d ''flags'' = Some (JArr (map JStr fs)) \<and> fs \<noteq> []
       \<longrightarrow> compile_regex_from_config re c = compile_pattern re p (Some fs))"
proof -
  let ?six = "{''IGNORECASE'', ''MULTILINE'', ''DOTALL'', ''UNICODE'', ''ASCII'', ''VERBOSE''}"
  have a: "compile_pattern re p (Some fs) = try_compile re p (union_flags fs)
        \<and> (map upper gs = map upper fs
             \<longrightarrow> compile_pattern re p (Some gs) = compile_pattern re p (Some fs))"
    if k: "\<forall>n\<in>set fs. upper n \<in> ?six"
  proof -
    from k have kf: "\<forall>n\<in>set fs. upper n \<in> dom FLAG_MAP" by (simp add: dom_FLAG_MAP)
    have "compile_pattern re p (Some gs) = compile_pattern re p (Some fs)"
      if m: "map upper gs = map upper fs"
    proof -
      from m have im: "upper ` set gs = upper ` set fs" by (metis set_map)
      with kf have kg: "\<forall>n\<in>set gs. upper n \<in> dom FLAG_MAP" by (metis imageE imageI)
      show ?thesis
        by (simp add: compile_pattern_known[OF kf] compile_pattern_known[OF kg]
              union_flags_cong[OF im])
    qed
    with compile_pattern_known[OF kf] show ?thesis by blast
  qed
  have b: "(\<exists>bad. compile_pattern re p (Some fs) = Inl (InvalidFlag bad))
        \<longleftrightarrow> (\<exists>n\<in>set fs. upper n \<notin> ?six)"
  proof
    assume "\<exists>bad. compile_pattern re p (Some fs) = Inl (InvalidFlag bad)"
    then obtain bad where r: "compile_pattern re p (Some fs) = Inl (InvalidFlag bad)" ..
    show "\<exists>n\<in>set fs. upper n \<notin> ?six"
    proof (rule ccontr)
      assume "\<not> (\<exists>n\<in>set fs. upper n \<notin> ?six)"
      then have "\<forall>n\<in>set fs. upper n \<in> dom FLAG_MAP" by (simp add: dom_FLAG_MAP)
      from compile_pattern_known[OF this, of re p] r
      have "try_compile re p (union_flags fs) = Inl (InvalidFlag bad)" by simp
      then show False by (simp add: try_compile_not_flag)
    qed
  next
    assume "\<exists>n\<in>set fs. upper n \<notin> ?six"
    then have "\<exists>n\<in>set fs. upper n \<notin> dom FLAG_MAP" by (simp add: dom_FLAG_MAP)
    from compile_pattern_unknown[OF this] show "\<exists>bad. compile_pattern re p (Some fs) = Inl (InvalidFlag bad)"
      by blast
  qed
  have c: "compile_pattern re p (Some [''ignorecase'']) = try_compile re p 2"
    "compile_pattern re p (Some [''IgnoreCase'']) = try_compile re p 2"
    "compile_pattern re p (Some [''IGNORECASE'']) = try_compile re p 2"
    by (simp_all add: compile_pattern_def or_empty_def upper_def upper_char_def FLAG_MAP_def)
  have d: "compile_regex_from_config re c = compile_pattern re p (Some fs)"
    if "path_exists c" "is_file c" "loaded c = Inr (JObj d)"
       "map_of d ''regex'' = Some (JStr p)" "strip p \<noteq> []"
       "map_of d ''flags'' = Some (JArr (map JStr fs))" "fs \<noteq> []"
    using that
    by (simp add: compile_regex_from_config_def dict_get_def str_list_def str_items_map_JStr
          compile_pattern_def or_empty_def)
  from a b c d show ?thesis by blast
qed

theorem flag_names_case_insensitive_witness:
  "compile_pattern sample_engine sample_q (Some [''IgnoreCase'', ''verbose''])
     = Inr (sample_q, 66)
   \<and> compile_pattern sample_engine sample_q (Some [''ignorecase'', ''VERBOSE''])
     = compile_pattern sample_engine sample_q (Some [''IgnoreCase'', ''verbose''])
   \<and> (\<exists>bad. compile_pattern sample_engine sample_q (Some [''IgnoreCase'', ''verbose'']) = Inl (InvalidFlag bad)) = False
   \<and> compile_regex_from_config sample_engine
        \<lparr>path_exists = True, is_file = True,
         loaded = Inr (JObj [(''regex'', JStr sample_q),
                             (''flags'', JArr [JStr ''IgnoreCase'', JStr ''verbose''])])\<rparr>
       = Inr (sample_q, 66)"
proof -
  let ?six = "{''IGNORECASE'', ''MULTILINE'', ''DOTALL'', ''UNICODE'', ''ASCII'', ''VERBOSE''}"
  let ?fs = "[''IgnoreCase'', ''verbose'']"
  let ?c = "\<lparr>path_exists = True, is_file = True,
         loaded = Inr (JObj [(''regex'', JStr sample_q),
                             (''flags'', JArr [JStr ''IgnoreCase'', JStr ''verbose''])])\<rparr>"
  have k: "\<forall>n\<in>set ?fs. upper n \<in> ?six"
    by (simp add: upper_def upper_char_def)
  have nk: "\<not> (\<exists>n\<in>set ?fs. upper n \<notin> ?six)"
    by (simp add: upper_def upper_char_def)
  have m: "map upper [''ignorecase'', ''VERBOSE''] = map upper ?fs"
    by (simp add: upper_def upper_char_def)
  have u: "union_flags ?fs = 66"
    by (simp add: union_flags_def flag_of_def FLAG_MAP_def upper_def upper_char_def)
  have t: "try_compile sample_engine sample_q v = Inr (sample_q, v)" for v
    by (simp add: try_compile_def sample_engine_def sample_q_def)
  have s: "strip sample_q \<noteq> []"
    by (simp add: strip_def lstrip_def rstrip_def isspace_def sample_q_def)
  note th = flag_names_case_insensitive[of ?fs sample_engine sample_q "[''ignorecase'', ''VERBOSE'']" ?c
      "[(''regex'', JStr sample_q), (''flags'', JArr [JStr ''IgnoreCase'', JStr ''verbose''])]"]
  from th k m have 1: "compile_pattern sample_engine sample_q (Some ?fs) = try_compile sample_engine sample_q (union_flags ?fs)"
    and 2: "compile_pattern sample_engine sample_q (Some [''ignorecase'', ''VERBOSE''])
     = compile_pattern sample_engine sample_q (Some ?fs)"
    by blast+
  from th nk have 3: "(\<exists>bad. compile_pattern sample_engine sample_q (Some ?fs) = Inl (InvalidFlag bad)) = False"
    by blast
  from th s have 4: "compile_regex_from_config sample_engine ?c = compile_pattern sample_engine sample_q (Some ?fs)"
    by simp
  show ?thesis using 1 2 3 4 by (simp add: u t)
qed

subsection \<open>One block for each match of the outer rule\<close>

text \<open>
  When every declared group participates in every match, the extractor returns one block
  for each match of the question pattern, in the order the engine yields them, and the
  text of each block is the group \<open>question\<close> of its match if the pattern declares
  one, else the full match, trimmed.
\<close>

lemma blocks_when_groups_participate:
  assumes "compile_pattern re (question_regex c) (question_flags c) = Inr q_pat"
    and "compile_pattern re (option_regex c) (option_flags c) = Inr o_pat"
    and "all_participate re o_pat (finditer re q_pat text)"
  shows "\<exists>bs. parse_questions_with_config re text c = Inr bs
           \<and> length bs = length (finditer re q_pat text)
           \<and> map question bs = map (extracted_text ''question'') (finditer re q_pat text)"
proof -
  let ?qms = "finditer re q_pat text"
  let ?bs = "map (\<lambda>m. \<lparr>question = extracted_text ''question'' m,
                         options = kept_options (finditer re o_pat (group0 m))\<rparr>) ?qms"
  have r: "parse_questions_with_config re text c = Inr ?bs"
    using question_loop_ok[OF assms(3), of "[]"] by (simp add: parse_compiled[OF assms(1,2)])
  have l: "length ?bs = length ?qms" by simp
  have m: "map question ?bs = map (extracted_text ''question'') ?qms" by simp
  from r l m show ?thesis by blast
qed

text \<open>
  C2.  The claim asks for exactly one block for each match of the outer rule, the text of
  the block being the group \<open>question\<close> if the rule declares one, else the full match,
  trimmed.  The code misses a case: the question pattern \<open>Q(?P<question>x)?\<close> compiles
  and matches the text \<open>Q\<close> once, its group \<open>question\<close> taking no part in the match;
  \<open>groupdict().get("question", block)\<close> is then \<open>None\<close>, not the block, and
  \<open>parse_questions_with_config\<close> raises \<open>AttributeError\<close> and returns no block at all.
\<close>

theorem segment_unmatched_group_no_blocks:
  "compile_pattern sample_engine ''Q(?P<question>x)?'' None = Inr (''Q(?P<question>x)?'', 0)
   \<and> compile_pattern sample_engine sample_o None = Inr (sample_o, 0)
   \<and> length (finditer sample_engine (''Q(?P<question>x)?'', 0) ''Q'') = 1
   \<and> parse_questions_with_config sample_engine ''Q''
        \<lparr>question_regex = ''Q(?P<question>x)?'', question_flags = None,
         option_regex = sample_o, option_flags = None\<rparr> = Inl (Uncaught AttributeError)"
  by (simp add: parse_questions_with_config_def sample_compile sample_finditer
      strip_value_def group_or_def dict_get_def)

subsection \<open>Options are looked for inside the block\<close>

text \<open>
  C3.  For the blocks that \<open>parse_questions_with_config\<close> returns, the options of the
  \<open>i\<close>-th block are the kept fragments of the matches of the option pattern in the full
  text of the \<open>i\<close>-th match of the question pattern (\<open>group(0)\<close>): every option of a
  block is the extracted text of an inner match in that block.  The inner matcher is
  never consulted on anything else: an engine that agrees with the given one on compiling,
  on the matches of the question pattern in the document and on the matches of the option
  pattern in each block gives the same result, whatever it yields for the option pattern
  on the whole document.
\<close>

theorem options_scoped_to_block:
  assumes "compile_pattern re (question_regex c) (question_flags c) = Inr q_pat"
    and "compile_pattern re (option_regex c) (option_flags c) = Inr o_pat"
    and "parse_questions_with_config re text c = Inr bs"
  shows "length bs = length (finditer re q_pat text)
       \<and> (\<forall>i<length bs.
             options (bs ! i) = kept_options (finditer re o_pat (group0 (finditer re q_pat text ! i)))
           \<and> (\<forall>opt\<in>set (options (bs ! i)).
                 \<exists>om\<in>set (finditer re o_pat (group0 (finditer re q_pat text ! i))).
                   opt = extracted_text ''option'' om))
       \<and> (\<forall>re'. re_compile re' = re_compile re
               \<and> finditer re' q_pat text = finditer re q_pat text
               \<and> (\<forall>m\<in>set (finditer re q_pat text).
                     finditer re' o_pat (group0 m) = finditer re o_pat (group0 m))
             \<longrightarrow> parse_questions_with_config re' text c = Inr bs)"
proof -
  let ?qms = "finditer re q_pat text"
  let ?item = "\<lambda>r m. \<lparr>question = extracted_text ''question'' m,
                        options = kept_options (finditer r o_pat (group0 m))\<rparr>"
  from parse_returns_iff[OF assms(1,2), of "text"] assms(3)
  have part: "all_participate re o_pat ?qms" by blast
  have bs: "bs = map (?item re) ?qms"
    using question_loop_ok[OF part, of "[]"] assms(3) by (simp add: parse_compiled[OF assms(1,2)])
  have 1: "length bs = length ?qms" by (simp add: bs)
  have 2: "options (bs ! i) = kept_options (finditer re o_pat (group0 (?qms ! i)))
           \<and> (\<forall>opt\<in>set (options (bs ! i)).
                 \<exists>om\<in>set (finditer re o_pat (group0 (?qms ! i))).
                   opt = extracted_text ''option'' om)" if "i < length bs" for i
  proof -
    from that have o: "options (bs ! i) = kept_options (finditer re o_pat (group0 (?qms ! i)))"
      by (simp add: bs)
    show ?thesis unfolding o by (auto simp: kept_options_def)
  qed
  have 3: "parse_questions_with_config re' text c = Inr bs"
    if c: "re_compile re' = re_compile re"
      and q: "finditer re' q_pat text = finditer re q_pat text"
      and o: "\<forall>m\<in>set ?qms. finditer re' o_pat (group0 m) = finditer re o_pat (group0 m)"
    for re'
  proof -
    have tc: "try_compile re' = try_compile re"
      by (intro ext) (simp add: try_compile_def c)
    have cp: "compile_pattern re' p f = compile_pattern re p f" for p f
      by (simp add: compile_pattern_def tc split: sum.splits)
    have part': "all_participate re' o_pat (finditer re' q_pat text)"
      using part o unfolding q all_participate_def list_all_iff by simp
    have "map (?item re') ?qms = map (?item re) ?qms"
      using o by simp
    then have "question_loop re' o_pat (finditer re' q_pat text) [] = Inr bs"
      using question_loop_ok[OF part', of "[]"] by (simp add: q bs)
    moreover have "parse_questions_with_config re' text c
        = question_loop re' o_pat (finditer re' q_pat text) []"
      by (rule parse_compiled) (simp_all add: cp assms(1,2))
    ultimately show ?thesis by simp
  qed
  from 1 2 3 show ?thesis by blast
qed

theorem options_scoped_to_block_witness:
  "(\<exists>bs. parse_questions_with_config sample_engine sample_text
            \<lparr>question_regex = sample_q, question_flags = None,
             option_regex = sample_o, option_flags = None\<rparr> = Inr bs
        \<and> length bs = 2
        \<and> options (bs ! 0) = kept_options (finditer sample_engine (sample_o, 0) ''Q1. A? (a) x (b)  '')
        \<and> options (bs ! 1) = kept_options (finditer sample_engine (sample_o, 0) ''Q2. B? (a) y'')
        \<and> parse_questions_with_config
             (sample_engine\<lparr>finditer := (\<lambda>p t. if t = sample_text \<and> fst p = sample_o then []
                                               else finditer sample_engine p t)\<rparr>)
             sample_text
             \<lparr>question_regex = sample_q, question_flags = None,
              option_regex = sample_o, option_flags = None\<rparr> = Inr bs)"
proof -
  let ?c = "\<lparr>question_regex = sample_q, question_flags = None,
               option_regex = sample_o, option_flags = None\<rparr>"
  let ?re' = "sample_engine\<lparr>finditer := (\<lambda>p t. if t = sample_text \<and> fst p = sample_o then []
                                               else finditer sample_engine p t)\<rparr>"
  let ?qms = "finditer sample_engine (sample_q, 0) sample_text"
  have cq: "compile_pattern sample_engine (question_regex ?c) (question_flags ?c) = Inr (sample_q, 0)"
    and co: "compile_pattern sample_engine (option_regex ?c) (option_flags ?c) = Inr (sample_o, 0)"
    by (simp_all add: sample_compile)
  have p: "all_participate sample_engine (sample_o, 0) ?qms"
    by (simp add: all_participate_def sample_finditer participates_def)
  from parse_returns_iff[OF cq co, of sample_text] p
  obtain bs where bs: "parse_questions_with_config sample_engine sample_text ?c = Inr bs"
    by blast
  note t = options_scoped_to_block[OF cq co bs]
  from t have l: "length bs = length ?qms" by (rule conjunct1)
  then have l2: "length bs = 2" by (simp add: sample_finditer)
  from t have per: "\<forall>i<length bs.
       options (bs ! i) = kept_options (finditer sample_engine (sample_o, 0) (group0 (?qms ! i)))
     \<and> (\<forall>opt\<in>set (options (bs ! i)).
           \<exists>om\<in>set (finditer sample_engine (sample_o, 0) (group0 (?qms ! i))).
             opt = extracted_text ''option'' om)"
    by (rule conjunct1[OF conjunct2])
  from per l2 have o0: "options (bs ! 0)
       = kept_options (finditer sample_engine (sample_o, 0) (group0 (?qms ! 0)))"
    by simp
  from per l2 have o1: "options (bs ! 1)
       = kept_options (finditer sample_engine (sample_o, 0) (group0 (?qms ! 1)))"
    by simp
  have g: "group0 (?qms ! 0) = ''Q1. A? (a) x (b)  ''" "group0 (?qms ! 1) = ''Q2. B? (a) y''"
    by (simp_all add: sample_finditer)
  from t have ni: "\<forall>re'. re_compile re' = re_compile sample_engine
               \<and> finditer re' (sample_q, 0) sample_text = ?qms
               \<and> (\<forall>m\<in>set ?qms.
                     finditer re' (sample_o, 0) (group0 m) = finditer sample_engine (sample_o, 0) (group0 m))
             \<longrightarrow> parse_questions_with_config re' sample_text ?c = Inr bs"
    by (rule conjunct2[OF conjunct2])
  have a1: "re_compile ?re' = re_compile sample_engine" by simp
  have a2: "finditer ?re' (sample_q, 0) sample_text = ?qms"
    by (simp add: sample_q_def sample_o_def)
  have a3: "\<forall>m\<in>set ?qms.
      finditer ?re' (sample_o, 0) (group0 m) = finditer sample_engine (sample_o, 0) (group0 m)"
    unfolding sample_finditer by (simp add: sample_text_def)
  from ni a1 a2 a3 have r': "parse_questions_with_config ?re' sample_text ?c = Inr bs"
    by (elim allE[of _ ?re'] impE) (intro conjI, assumption+)
  show ?thesis
    apply (rule exI[of _ bs])
    apply (intro conjI)
        apply (rule bs)
       apply (rule l2)
      apply (rule o0[unfolded g])
     apply (rule o1[unfolded g])
    apply (rule r')
    done
qed

subsection \<open>Empty option fragments are dropped\<close>

text \<open>
  C4.  For every block that \<open>parse_questions_with_config\<close> returns, the list of options
  is the list of the trimmed texts of the inner matches of that block, in match order,
  with exactly the empty ones removed: every option in the output is non-empty and has no
  white space at either end, and the kept fragments stay in their order, next to one
  another.  An inner match whose text is empty or white space only is not an error: the
  inner loop returns the kept fragments for every list of matches whose declared group
  participates, whether or not some of the texts are empty.
\<close>

theorem option_fragments_nonempty:
  assumes "compile_pattern re (question_regex c) (question_flags c) = Inr q_pat"
    and "compile_pattern re (option_regex c) (option_flags c) = Inr o_pat"
    and "parse_questions_with_config re text c = Inr bs"
    and "i < length bs"
  shows "options (bs ! i)
           = filter (\<lambda>s. s \<noteq> [])
               (map (extracted_text ''option'')
                  (finditer re o_pat (group0 (finditer re q_pat text ! i))))
       \<and> (\<forall>opt\<in>set (options (bs ! i)). opt \<noteq> [] \<and> strip opt = opt)
       \<and> (list_all (participates ''option'') oms
            \<longrightarrow> option_loop oms [] = Inr (filter (\<lambda>s. s \<noteq> []) (map (extracted_text ''option'') oms)))"
proof -
  let ?qms = "finditer re q_pat text"
  from parse_returns_iff[OF assms(1,2), of "text"] assms(3)
  have part: "all_participate re o_pat ?qms" by blast
  have bs: "bs = map (\<lambda>m. \<lparr>question = extracted_text ''question'' m,
                            options = kept_options (finditer re o_pat (group0 m))\<rparr>) ?qms"
    using question_loop_ok[OF part, of "[]"] assms(3) by (simp add: parse_compiled[OF assms(1,2)])
  from assms(4) have 1: "options (bs ! i)
      = filter (\<lambda>s. s \<noteq> [])
          (map (extracted_text ''option'') (finditer re o_pat (group0 (?qms ! i))))"
    by (simp add: bs kept_options_def)
  have 2: "\<forall>opt\<in>set (options (bs ! i)). opt \<noteq> [] \<and> strip opt = opt"
    unfolding 1 by (auto simp: extracted_text_def strip_idem)
  have 3: "option_loop oms [] = Inr (filter (\<lambda>s. s \<noteq> []) (map (extracted_text ''option'') oms))"
    if "list_all (participates ''option'') oms"
    using option_loop_ok[OF that, of "[]"] by (simp add: kept_options_def)
  from 1 2 3 show ?thesis by blast
qed

theorem option_fragments_nonempty_witness:
  "(\<exists>bs. parse_questions_with_config sample_engine sample_text
            \<lparr>question_regex = sample_q, question_flags = None,
             option_regex = sample_o, option_flags = None\<rparr> = Inr bs
        \<and> 0 < length bs
        \<and> map (extracted_text ''option'') (finditer sample_engine (sample_o, 0) ''Q1. A? (a) x (b)  '')
            = [''x'', []]
        \<and> options (bs ! 0) = [''x''])"
proof -
  let ?c = "\<lparr>question_regex = sample_q, question_flags = None,
               option_regex = sample_o, option_flags = None\<rparr>"
  let ?qms = "finditer sample_engine (sample_q, 0) sample_text"
  have cq: "compile_pattern sample_engine (question_regex ?c) (question_flags ?c) = Inr (sample_q, 0)"
    and co: "compile_pattern sample_engine (option_regex ?c) (option_flags ?c) = Inr (sample_o, 0)"
    by (simp_all add: sample_compile)
  have p: "all_participate sample_engine (sample_o, 0) ?qms"
    by (simp add: all_participate_def sample_finditer participates_def)
  from parse_returns_iff[OF cq co, of sample_text] p
  obtain bs where bs: "parse_questions_with_config sample_engine sample_text ?c = Inr bs"
    by blast
  from returned_blocks_length[OF cq co bs] have l: "0 < length bs"
    by (simp add: sample_finditer)
  have g: "group0 (?qms ! 0) = ''Q1. A? (a) x (b)  ''"
    by (simp add: sample_finditer)
  have e: "map (extracted_text ''option'') (finditer sample_engine (sample_o, 0) ''Q1. A? (a) x (b)  '')
            = [''x'', []]"
    by (simp add: sample_finditer extracted_text_def strip_eval)
  from option_fragments_nonempty[OF cq co bs l, of "[]"]
  have "options (bs ! 0) = filter (\<lambda>s. s \<noteq> [])
               (map (extracted_text ''option'')
                  (finditer sample_engine (sample_o, 0) (group0 (?qms ! 0))))"
    by (rule conjunct1)
  then have o: "options (bs ! 0) = [''x'']"
    unfolding g e by simp
  show ?thesis
    apply (rule exI[of _ bs])
    apply (intro conjI)
       apply (rule bs)
      apply (rule l)
     apply (rule e)
    apply (rule o)
    done
qed

subsection \<open>A declared group that takes no part in a match\<close>

text \<open>
  C9.  When the two rules compile and some match of the question pattern has a group
  \<open>question\<close> with value \<open>None\<close>, or some match of the option pattern inside some
  block has a group \<open>option\<close> with value \<open>None\<close>, \<open>parse_questions_with_config\<close>
  raises (\<open>AttributeError\<close>, from \<open>None.strip()\<close>) and returns no blocks.  For a single
  match: the full match is used only when the match has no group of that name; a group
  with a text gives that text; a group with value \<open>None\<close> raises.
\<close>

theorem unmatched_group_raises:
  assumes "compile_pattern re (question_regex c) (question_flags c) = Inr q_pat"
    and "compile_pattern re (option_regex c) (option_flags c) = Inr o_pat"
    and "(\<exists>m\<in>set (finditer re q_pat text). map_of (groupdict m) ''question'' = Some None)
       \<or> (\<exists>m\<in>set (finditer re q_pat text). \<exists>om\<in>set (finditer re o_pat (group0 m)).
             map_of (groupdict om) ''option'' = Some None)"
  shows "parse_questions_with_config re text c = Inl (Uncaught AttributeError)
       \<and> (map_of (groupdict m) name = Some None
            \<longrightarrow> strip_value (group_or m name (group0 m)) = Inl (Uncaught AttributeError))
       \<and> (map_of (groupdict m) name = None
            \<longrightarrow> strip_value (group_or m name (group0 m)) = Inr (strip (group0 m)))
       \<and> (map_of (groupdict m) name = Some (Some s)
            \<longrightarrow> strip_value (group_or m name (group0 m)) = Inr (strip s))"
proof -
  from assms(3) have "\<not> all_participate re o_pat (finditer re q_pat text)"
    by (auto simp: all_participate_def list_all_iff participates_def)
  from question_loop_fail[OF this, of "[]"]
  have 1: "parse_questions_with_config re text c = Inl (Uncaught AttributeError)"
    by (simp add: parse_compiled[OF assms(1,2)])
  have 2: "strip_value (group_or m name (group0 m)) = Inl (Uncaught AttributeError)"
    if "map_of (groupdict m) name = Some None"
    using that by (simp add: strip_value_def group_or_def dict_get_def)
  have 3: "strip_value (group_or m name (group0 m)) = Inr (strip (group0 m))"
    if "map_of (groupdict m) name = None"
    using that by (simp add: strip_value_def group_or_def dict_get_def)
  have 4: "strip_value (group_or m name (group0 m)) = Inr (strip s)"
    if "map_of (groupdict m) name = Some (Some s)"
    using that by (simp add: strip_value_def group_or_def dict_get_def)
  from 1 2 3 4 show ?thesis by blast
qed

theorem unmatched_group_raises_witness:
  "(\<exists>om\<in>set (finditer sample_engine (sample_o2, 0) ''Q1. A? (a) x (b)  '').
       map_of (groupdict om) ''option'' = Some None)
   \<and> parse_questions_with_config sample_engine sample_text
        \<lparr>question_regex = sample_q, question_flags = None,
         option_regex = sample_o2, option_flags = None\<rparr> = Inl (Uncaught AttributeError)"
proof -
  let ?c = "\<lparr>question_regex = sample_q, question_flags = None,
               option_regex = sample_o2, option_flags = None\<rparr>"
  let ?qms = "finditer sample_engine (sample_q, 0) sample_text"
  have cq: "compile_pattern sample_engine (question_regex ?c) (question_flags ?c) = Inr (sample_q, 0)"
    and co: "compile_pattern sample_engine (option_regex ?c) (option_flags ?c) = Inr (sample_o2, 0)"
    by (simp_all add: sample_compile)
  have a: "\<exists>om\<in>set (finditer sample_engine (sample_o2, 0) ''Q1. A? (a) x (b)  '').
       map_of (groupdict om) ''option'' = Some None"
    by (simp add: sample_finditer)
  have b: "\<exists>m\<in>set ?qms. \<exists>om\<in>set (finditer sample_engine (sample_o2, 0) (group0 m)).
             map_of (groupdict om) ''option'' = Some None"
    unfolding sample_finditer(1) using a by simp
  have h: "(\<exists>m\<in>set ?qms. map_of (groupdict m) ''question'' = Some None) \<or>
      (\<exists>m\<in>set ?qms. \<exists>om\<in>set (finditer sample_engine (sample_o2, 0) (group0 m)).
             map_of (groupdict om) ''option'' = Some None)"
    by (rule disjI2) (rule b)
  from unmatched_group_raises[OF cq co h]
  have r: "parse_questions_with_config sample_engine sample_text ?c = Inl (Uncaught AttributeError)"
    by (rule conjunct1)
  show ?thesis by (rule conjI) (rule a, rule r)
qed

subsection \<open>Loading the configuration\<close>

lemma load_regex_config_kinds:
  "\<not> (path_exists p \<and> is_file p) \<Longrightarrow> load_regex_config p = Inl ConfigNotFound"
  "path_exists p \<Longrightarrow> is_file p \<Longrightarrow> loaded p = Inl msg \<Longrightarrow>
     load_regex_config p = Inl (ConfigMalformed msg)"
  "path_exists p \<Longrightarrow> is_file p \<Longrightarrow> loaded p = Inr (JObj d) \<Longrightarrow>
     \<not> nonblank_str (map_of d ''question_regex'') \<Longrightarrow>
     load_regex_config p = Inl (ConfigIncomplete ''question_regex'')"
  "path_exists p \<Longrightarrow> is_file p \<Longrightarrow> loaded p = Inr (JObj d) \<Longrightarrow>
     nonblank_str (map_of d ''question_regex'') \<Longrightarrow>
     \<not> nonblank_str (map_of d ''option_regex'') \<Longrightarrow>
     load_regex_config p = Inl (ConfigIncomplete ''option_regex'')"
  "path_exists p \<Longrightarrow> is_file p \<Longrightarrow> loaded p = Inr (JObj d) \<Longrightarrow>
     nonblank_str (map_of d ''question_regex'') \<Longrightarrow>
     nonblank_str (map_of d ''option_regex'') \<Longrightarrow>
     \<exists>cfg. load_regex_config p = Inr cfg"
  by (auto simp: load_regex_config_def)

text \<open>
  C8.  The claim fails on a configuration file that exists and parses, but not to an
  object: \<open>data.get\<close> is called after the \<open>try\<close>, so for a parsed list, string, number,
  boolean or \<open>null\<close> the function raises a plain \<open>AttributeError\<close>, which is none of
  \<open>ConfigNotFound\<close>, \<open>ConfigMalformed\<close>, \<open>ConfigIncomplete\<close>.
\<close>

theorem load_regex_config_non_object:
  assumes "path_exists p" and "is_file p" and "loaded p = Inr data"
    and "\<forall>d. data \<noteq> JObj d"
  shows "load_regex_config p = Inl (Uncaught AttributeError)"
  using assms by (cases data) (simp_all add: load_regex_config_def)

theorem load_regex_config_non_object_witness:
  "load_regex_config \<lparr>path_exists = True, is_file = True, loaded = Inr (JArr [])\<rparr>
     = Inl (Uncaught AttributeError)"
  by (rule load_regex_config_non_object[where data = "JArr []"]) simp_all

subsection \<open>The MCQ gate\<close>

lemma flush_ok:
  "\<not> fails InsertBase \<Longrightarrow> \<not> fails InsertExtension \<Longrightarrow>
   flush fails obj db =
     (Inr (next_id db),
      db\<lparr>pending := \<lparr>questions = questions (pending db) @ [(next_id db, base_row obj)],
                      extensions = extensions (pending db) @ [(next_id db, ext_row obj)]\<rparr>,
         next_id := Suc (next_id db)\<rparr>)"
  by (simp add: flush_def Let_def)

lemma create_question_ok:
  assumes "\<not> fails InsertBase" and "\<not> fails InsertExtension" and "\<not> fails Commit"
  shows "fst (create_question fails q db) = Inr (next_id db, row_type (base_row (build q)))"
    and "committed (snd (create_question fails q db))
           = \<lparr>questions = questions (pending db) @ [(next_id db, base_row (build q))],
              extensions = extensions (pending db) @ [(next_id db, ext_row (build q))]\<rparr>"
    and "pending (snd (create_question fails q db))
           = committed (snd (create_question fails q db))"
  using assms by (simp_all add: create_question_def add_def flush_ok commit_def Let_def)

lemma create_question_failed:
  assumes "fails InsertBase \<or> fails InsertExtension \<or> fails Commit"
  shows "(\<exists>e. fst (create_question fails q db) = Inl (PersistenceFailure e))
       \<and> committed (snd (create_question fails q db)) = committed db
       \<and> pending (snd (create_question fails q db)) = committed db"
proof (cases "fails InsertBase")
  case True
  then show ?thesis
    by (simp add: create_question_def add_def flush_def rollback_def Let_def)
next
  case nb: False
  show ?thesis
  proof (cases "fails InsertExtension")
    case True
    with nb show ?thesis
      by (simp add: create_question_def add_def flush_def rollback_def Let_def)
  next
    case False
    with nb assms have "fails Commit" by simp
    with nb False show ?thesis
      by (simp add: create_question_def add_def flush_ok commit_def rollback_def Let_def)
  qed
qed

text \<open>
  C1, as stated, fails: a body of type \<open>mcq\<close> with the two options \<open>A\<close>, \<open>B\<close> and
  an empty \<open>subject_name\<close> is rejected (the field has \<open>min_length=1\<close>).
\<close>

theorem mcq_options_gate_counterexample:
  "2 \<le> length [''A'', ''B'']
   \<and> post_questions (\<lambda>w. False)
        (MCQIn \<lparr>subject_name = [], chapter_name = None, question_text = ''Q?'',
                source_file = None, page_start = None, page_end = None\<rparr> [''A'', ''B''])
        empty_session
      = (Inl (RequestInvalid [MinLength ''subject_name'']), empty_session)"
  by (simp add: post_questions_def validate_base_def min_length_1_def gt_0_def
      must_have_at_least_two_def)

text \<open>
  C1, amended.  For every MCQ input whose list of answer options has fewer than 2
  entries, validation fails with \<open>InsufficientOptions\<close> among its errors, and the route
  answers with that failure and the session as it was: nothing is built and nothing is
  written.  If the list has at least 2 entries and the base fields satisfy their own
  constraints (\<open>subject_name\<close> and \<open>question_text\<close> non-empty, \<open>page_start\<close> and
  \<open>page_end\<close> positive when given), validation succeeds, the object built has
  \<open>answer_options\<close> equal to the input list, and with a storage engine that does not fail
  the stored base row carries that list.
\<close>

theorem mcq_options_gate:
  "(length opts < 2 \<longrightarrow>
      must_have_at_least_two opts = Inl InsufficientOptions
      \<and> InsufficientOptions \<in> set (validation_errors (MCQIn b opts))
      \<and> post_questions fails (MCQIn b opts) db
          = (Inl (RequestInvalid (validation_errors (MCQIn b opts))), db))
   \<and> (2 \<le> length opts \<and> validate_base b = [] \<longrightarrow>
      must_have_at_least_two opts = Inr opts
      \<and> validation_errors (MCQIn b opts) = []
      \<and> row_answer_options (base_row (build (MCQIn b opts))) = Some opts
      \<and> post_questions fails (MCQIn b opts) db = create_question fails (MCQIn b opts) db
      \<and> (\<not> fails InsertBase \<and> \<not> fails InsertExtension \<and> \<not> fails Commit \<longrightarrow>
           fst (post_questions fails (MCQIn b opts) db) = Inr (next_id db, ''mcq'')
           \<and> questions (committed (snd (post_questions fails (MCQIn b opts) db)))
               = questions (pending db) @ [(next_id db, base_row (build (MCQIn b opts)))]))"
proof -
  have a: "must_have_at_least_two opts = Inl InsufficientOptions
      \<and> InsufficientOptions \<in> set (validation_errors (MCQIn b opts))
      \<and> post_questions fails (MCQIn b opts) db
          = (Inl (RequestInvalid (validation_errors (MCQIn b opts))), db)"
    if "length opts < 2"
  proof -
    from that have m: "must_have_at_least_two opts = Inl InsufficientOptions"
      by (simp add: must_have_at_least_two_def)
    have i: "InsufficientOptions \<in> set (validation_errors (MCQIn b opts))"
      by (simp add: m)
    have "validation_errors (MCQIn b opts) \<noteq> []"
      by (simp add: m)
    then have "post_questions fails (MCQIn b opts) db
          = (Inl (RequestInvalid (validation_errors (MCQIn b opts))), db)"
      by (cases "validation_errors (MCQIn b opts)") (simp_all add: post_questions_def)
    with m i show ?thesis by blast
  qed
  have b: "must_have_at_least_two opts = Inr opts
      \<and> validation_errors (MCQIn b opts) = []
      \<and> row_answer_options (base_row (build (MCQIn b opts))) = Some opts
      \<and> post_questions fails (MCQIn b opts) db = create_question fails (MCQIn b opts) db
      \<and> (\<not> fails InsertBase \<and> \<not> fails InsertExtension \<and> \<not> fails Commit \<longrightarrow>
           fst (post_questions fails (MCQIn b opts) db) = Inr (next_id db, ''mcq'')
           \<and> questions (committed (snd (post_questions fails (MCQIn b opts) db)))
               = questions (pending db) @ [(next_id db, base_row (build (MCQIn b opts)))])"
    if "2 \<le> length opts" "validate_base b = []"
  proof -
    from that(1) have m: "must_have_at_least_two opts = Inr opts"
      by (auto simp: must_have_at_least_two_def)
    with that(2) have v: "validation_errors (MCQIn b opts) = []" by simp
    have r: "row_answer_options (base_row (build (MCQIn b opts))) = Some opts" by simp
    have p: "post_questions fails (MCQIn b opts) db = create_question fails (MCQIn b opts) db"
      by (simp only: post_questions_def v list.case)
    have s: "fst (post_questions fails (MCQIn b opts) db) = Inr (next_id db, ''mcq'')
           \<and> questions (committed (snd (post_questions fails (MCQIn b opts) db)))
               = questions (pending db) @ [(next_id db, base_row (build (MCQIn b opts)))]"
      if "\<not> fails InsertBase" "\<not> fails InsertExtension" "\<not> fails Commit"
      unfolding p using create_question_ok[OF that, of "MCQIn b opts" db] by simp
    from m v r p s show ?thesis by blast
  qed
  from a b show ?thesis by blast
qed

theorem mcq_options_gate_witness:
  "post_questions (\<lambda>w. False)
      (MCQIn \<lparr>subject_name = ''Maths'', chapter_name = None, question_text = ''Q?'',
              source_file = None, page_start = None, page_end = None\<rparr> [''A''])
      empty_session
     = (Inl (RequestInvalid [InsufficientOptions]), empty_session)
   \<and> fst (post_questions (\<lambda>w. False)
      (MCQIn \<lparr>subject_name = ''Maths'', chapter_name = None, question_text = ''Q?'',
              source_file = None, page_start = None, page_end = None\<rparr> [''A'', ''B''])
      empty_session) = Inr (1, ''mcq'')
   \<and> map (row_answer_options \<circ> snd) (questions (committed (snd (post_questions (\<lambda>w. False)
      (MCQIn \<lparr>subject_name = ''Maths'', chapter_name = None, question_text = ''Q?'',
              source_file = None, page_start = None, page_end = None\<rparr> [''A'', ''B''])
      empty_session)))) = [Some [''A'', ''B'']]"
proof -
  let ?b = "\<lparr>subject_name = ''Maths'', chapter_name = None, question_text = ''Q?'',
              source_file = None, page_start = None, page_end = None\<rparr>"
  have vb: "validate_base ?b = []"
    by (simp add: validate_base_def min_length_1_def gt_0_def)
  have l1: "length [''A''] < 2" and l2: "2 \<le> length [''A'', ''B'']" by simp_all
  have nf: "\<not> (\<lambda>w. False) InsertBase \<and> \<not> (\<lambda>w. False) InsertExtension \<and> \<not> (\<lambda>w. False) Commit"
    by simp
  have e1: "validation_errors (MCQIn ?b [''A'']) = [InsufficientOptions]"
    by (simp add: vb must_have_at_least_two_def)
  from mcq_options_gate[of "[''A'']" ?b "\<lambda>w. False" empty_session] l1
  have 1: "post_questions (\<lambda>w. False) (MCQIn ?b [''A'']) empty_session
     = (Inl (RequestInvalid (validation_errors (MCQIn ?b [''A'']))), empty_session)"
    by blast
  from mcq_options_gate[of "[''A'', ''B'']" ?b "\<lambda>w. False" empty_session] l2 vb nf
  have 2: "fst (post_questions (\<lambda>w. False) (MCQIn ?b [''A'', ''B'']) empty_session)
            = Inr (next_id empty_session, ''mcq'')"
    and 3: "questions (committed (snd (post_questions (\<lambda>w. False) (MCQIn ?b [''A'', ''B'']) empty_session)))
            = questions (pending empty_session)
              @ [(next_id empty_session, base_row (build (MCQIn ?b [''A'', ''B''])))]"
    by blast+
  show ?thesis
    unfolding 1 2 3 e1 by (simp add: empty_session_def)
qed

subsection \<open>Atomic save\<close>

text \<open>
  C5.  In a session with no uncommitted writes, \<open>create_question\<close> stores a question as
  one unit of work.  If the insert into the base table, the insert into the extension
  table or the commit fails, the result is \<open>PersistenceFailure\<close> and, after the
  \<open>rollback\<close> of the handler, both the committed tables and the session's own view are
  the tables as they were: no row of the question remains in either table.  If none
  fails, the base row and the extension row are both committed, under the same identity.
  So the committed tables hold a base row for an identity exactly when they hold its
  extension row, before and after; and a failure of the extension insert into empty tables
  leaves both tables empty.
\<close>

theorem save_atomic:
  assumes "pending db = committed db"
  shows "(fails InsertBase \<or> fails InsertExtension \<or> fails Commit \<longrightarrow>
            (\<exists>e. fst (create_question fails q db) = Inl (PersistenceFailure e))
            \<and> committed (snd (create_question fails q db)) = committed db
            \<and> pending (snd (create_question fails q db)) = committed db)
       \<and> (\<not> fails InsertBase \<and> \<not> fails InsertExtension \<and> \<not> fails Commit \<longrightarrow>
            fst (create_question fails q db) = Inr (next_id db, row_type (base_row (build q)))
            \<and> questions (committed (snd (create_question fails q db)))
                = questions (committed db) @ [(next_id db, base_row (build q))]
            \<and> extensions (committed (snd (create_question fails q db)))
                = extensions (committed db) @ [(next_id db, ext_row (build q))]
            \<and> pending (snd (create_question fails q db))
                = committed (snd (create_question fails q db)))
       \<and> (paired (committed db) \<longrightarrow> paired (committed (snd (create_question fails q db))))
       \<and> (fails InsertExtension \<and> questions (committed db) = [] \<and> extensions (committed db) = []
            \<longrightarrow> questions (committed (snd (create_question fails q db))) = []
              \<and> extensions (committed (snd (create_question fails q db))) = []
              \<and> questions (pending (snd (create_question fails q db))) = []
              \<and> extensions (pending (snd (create_question fails q db))) = [])"
proof -
  let ?r = "create_question fails q db"
  have f: "(\<exists>e. fst ?r = Inl (PersistenceFailure e))
            \<and> committed (snd ?r) = committed db \<and> pending (snd ?r) = committed db"
    if "fails InsertBase \<or> fails InsertExtension \<or> fails Commit"
  proof -
    from create_question_failed[OF that, of q db] show ?thesis .
  qed
  have s: "fst ?r = Inr (next_id db, row_type (base_row (build q)))
            \<and> questions (committed (snd ?r)) = questions (committed db) @ [(next_id db, base_row (build q))]
            \<and> extensions (committed (snd ?r)) = extensions (committed db) @ [(next_id db, ext_row (build q))]
            \<and> pending (snd ?r) = committed (snd ?r)"
    if "\<not> fails InsertBase \<and> \<not> fails InsertExtension \<and> \<not> fails Commit"
  proof -
    from that have "\<not> fails InsertBase" "\<not> fails InsertExtension" "\<not> fails Commit" by simp_all
    from create_question_ok[OF this, of q db] show ?thesis by (simp add: assms)
  qed
  have p: "paired (committed (snd ?r))" if pd: "paired (committed db)"
  proof (cases "fails InsertBase \<or> fails InsertExtension \<or> fails Commit")
    case True
    from f[OF True] pd show ?thesis by simp
  next
    case False
    then have "\<not> fails InsertBase \<and> \<not> fails InsertExtension \<and> \<not> fails Commit" by simp
    from s[OF this] pd show ?thesis by (simp add: paired_def)
  qed
  have z: "questions (committed (snd ?r)) = [] \<and> extensions (committed (snd ?r)) = []
         \<and> questions (pending (snd ?r)) = [] \<and> extensions (pending (snd ?r)) = []"
    if "fails InsertExtension \<and> questions (committed db) = [] \<and> extensions (committed db) = []"
  proof -
    from that have "fails InsertBase \<or> fails InsertExtension \<or> fails Commit" by simp
    from f[OF this] that show ?thesis by simp
  qed
  from f s p z show ?thesis by blast
qed

theorem save_atomic_witness:
  "pending empty_session = committed empty_session
   \<and> (\<exists>e. fst (create_question (\<lambda>w. w = InsertExtension)
        (MCQIn \<lparr>subject_name = ''Maths'', chapter_name = None, question_text = ''Q?'',
                source_file = None, page_start = None, page_end = None\<rparr> [''A'', ''B''])
        empty_session) = Inl (PersistenceFailure e))
   \<and> questions (committed (snd (create_question (\<lambda>w. w = InsertExtension)
        (MCQIn \<lparr>subject_name = ''Maths'', chapter_name = None, question_text = ''Q?'',
                source_file = None, page_start = None, page_end = None\<rparr> [''A'', ''B''])
        empty_session))) = []
   \<and> extensions (committed (snd (create_question (\<lambda>w. w = InsertExtension)
        (MCQIn \<lparr>subject_name = ''Maths'', chapter_name = None, question_text = ''Q?'',
                source_file = None, page_start = None, page_end = None\<rparr> [''A'', ''B''])
        empty_session))) = []
   \<and> map fst (questions (committed (snd (create_question (\<lambda>w. False)
        (MCQIn \<lparr>subject_name = ''Maths'', chapter_name = None, question_text = ''Q?'',
                source_file = None, page_start = None, page_end = None\<rparr> [''A'', ''B''])
        empty_session)))) = [1]
   \<and> map fst (extensions (committed (snd (create_question (\<lambda>w. False)
        (MCQIn \<lparr>subject_name = ''Maths'', chapter_name = None, question_text = ''Q?'',
                source_file = None, page_start = None, page_end = None\<rparr> [''A'', ''B''])
        empty_session)))) = [1]"
proof -
  let ?q = "MCQIn \<lparr>subject_name = ''Maths'', chapter_name = None, question_text = ''Q?'',
                source_file = None, page_start = None, page_end = None\<rparr> [''A'', ''B'']"
  have c: "pending empty_session = committed empty_session"
    by (simp add: empty_session_def)
  have e: "questions (committed empty_session) = []" "extensions (committed empty_session) = []"
    "next_id empty_session = 1"
    by (simp_all add: empty_session_def)
  note t1 = save_atomic[OF c, of "\<lambda>w. w = InsertExtension" ?q]
  note t2 = save_atomic[OF c, of "\<lambda>w. False" ?q]
  from t1 have 1: "\<exists>e. fst (create_question (\<lambda>w. w = InsertExtension) ?q empty_session)
       = Inl (PersistenceFailure e)"
    by simp
  from t1 e have 2: "questions (committed (snd (create_question (\<lambda>w. w = InsertExtension) ?q empty_session))) = []"
    and 3: "extensions (committed (snd (create_question (\<lambda>w. w = InsertExtension) ?q empty_session))) = []"
    by simp_all
  from t2 e have 4: "map fst (questions (committed (snd (create_question (\<lambda>w. False) ?q empty_session)))) = [1]"
    and 5: "map fst (extensions (committed (snd (create_question (\<lambda>w. False) ?q empty_session)))) = [1]"
    by simp_all
  show ?thesis
    apply (intro conjI)
         apply (rule c)
        apply (rule 1)
       apply (rule 2)
      apply (rule 3)
     apply (rule 4)
    apply (rule 5)
    done
qed


end
